theory Spec2Isabelle
  imports Complex_Main
begin

section \<open>Strings\<close>

text \<open>
  JavaScript strings are modelled as \<open>string\<close>, a character being a code unit below
  256. White space is what \<^verbatim>\<open>trim\<close> strips in that range (the no-break space
  included; the other Unicode spaces lie beyond it), and \<^verbatim>\<open>toLowerCase\<close> folds the
  letters A to Z.
\<close>

definition isSpace :: "char \<Rightarrow> bool" where
  "isSpace c =
     (c \<in> set [CHR 0x09, CHR 0x0A, CHR 0x0B, CHR 0x0C, CHR 0x0D, CHR 0x20, CHR 0xA0])"

text \<open>\<^verbatim>\<open>String.prototype.trim\<close>, also the \<^verbatim>\<open>trim\<close> sanitizer and schema option.\<close>

definition trim :: "string \<Rightarrow> string" where
  "trim s = rev (dropWhile isSpace (rev (dropWhile isSpace s)))"

definition lowerChar :: "char \<Rightarrow> char" where
  "lowerChar c =
     (case map_of (zip ''ABCDEFGHIJKLMNOPQRSTUVWXYZ'' ''abcdefghijklmnopqrstuvwxyz'') c of
        Some d \<Rightarrow> d
      | None \<Rightarrow> c)"

text \<open>\<^verbatim>\<open>String.prototype.toLowerCase\<close>, the schema option \<^verbatim>\<open>lowercase: true\<close>.\<close>

definition toLowerCase :: "string \<Rightarrow> string" where
  "toLowerCase s = map lowerChar s"

definition isDigit :: "char \<Rightarrow> bool" where
  "isDigit c = (c \<in> set ''0123456789'')"

definition digitChar :: "nat \<Rightarrow> char" where
  "digitChar d = ''0123456789'' ! d"

fun digitsOf :: "nat \<Rightarrow> string" where
  "digitsOf n = (if n < 10 then [digitChar n] else digitsOf (n div 10) @ [digitChar (n mod 10)])"

declare digitsOf.simps [simp del]

text \<open>\<^verbatim>\<open>Number.prototype.toString\<close> on an integral value.\<close>

definition toString :: "int \<Rightarrow> string" where
  "toString i = (if i < 0 then CHR ''-'' # digitsOf (nat (- i)) else digitsOf (nat i))"

section \<open>Numbers (IEEE 754 binary64)\<close>

text \<open>
  A JavaScript number is a binary64 value and every arithmetic operation rounds its exact
  result to the nearest such value, ties to even. \<open>ulp x\<close> is the spacing of the binary64
  values at the magnitude of \<open>x\<close> (53 significant bits, smallest exponent -1022), and
  \<open>fl64 x\<close> the value that \<open>x\<close> rounds to, for magnitudes below \<open>2 ^ 1024\<close> (the
  generator stays below \<open>2 ^ 20\<close>).
\<close>

definition roundTiesToEven :: "real \<Rightarrow> int" where
  "roundTiesToEven y =
     (let f = \<lfloor>y\<rfloor>
      in if y - of_int f < 1 / 2 then f
         else if 1 / 2 < y - of_int f then f + 1
         else if even f then f else f + 1)"

definition exponent :: "real \<Rightarrow> int" where
  "exponent x = max \<lfloor>log 2 \<bar>x\<bar>\<rfloor> (- 1022)"

definition ulp :: "real \<Rightarrow> real" where
  "ulp x = 2 powr of_int (exponent x - 52)"

definition fl64 :: "real \<Rightarrow> real" where
  "fl64 x = (if x = 0 then 0 else of_int (roundTiesToEven (x / ulp x)) * ulp x)"

section \<open>The OTP generator (emailService.js)\<close>

text \<open>
  \<^verbatim>\<open>Math.floor(100000 + Math.random() * 900000).toString()\<close>.
  The argument \<open>r\<close> is the value returned by \<^verbatim>\<open>Math.random()\<close>, a binary64 number
  with \<open>0 \<le> r < 1\<close>, hence at most \<open>1 - 2 ^ - 53\<close>. The product is rounded, then the
  sum is rounded; \<^verbatim>\<open>Math.floor\<close> is exact.
\<close>

definition otpNumber :: "real \<Rightarrow> int" where
  "otpNumber r = \<lfloor>fl64 (100000 + fl64 (r * 900000))\<rfloor>"

definition generateOTP :: "real \<Rightarrow> string" where
  "generateOTP r = toString (otpNumber r)"

section \<open>Data model (models/Club.js, models/OTP.js)\<close>

record member =
  m_name :: string
  m_role :: string
  m_email :: string

record event =
  e_name :: string
  e_description :: string
  e_date :: nat
  e_venue :: string
  e_googleFormLink :: string
  e_createdAt :: nat

text \<open>A document of \<^verbatim>\<open>clubSchema\<close>; \<open>c_id\<close> is its \<^verbatim>\<open>_id\<close>.\<close>

record club =
  c_id :: nat
  c_name :: string
  c_description :: string
  c_email :: string
  c_password :: string
  c_verified :: bool
  c_members :: "member list"
  c_events :: "event list"
  c_createdAt :: nat

text \<open>
  Modelled from the spec: the schema of models/OTP.js is not among the sources. The
  spec gives an OTP record the email it is keyed by, the code and \<open>issuedAt\<close>; the
  routes create it from \<^verbatim>\<open>{ email, otp }\<close> and query it by these two fields.
\<close>

record otpDoc =
  o_email :: string
  o_otp :: string
  o_createdAt :: nat

text \<open>
  The two collections, in insertion order, and the source of fresh \<^verbatim>\<open>_id\<close> values
  (an \<^verbatim>\<open>ObjectId\<close> is never handed out twice).
\<close>

record db =
  clubs :: "club list"
  otps :: "otpDoc list"
  nextId :: nat

text \<open>
  Library functions the routes call and the repository does not define:
  \<^verbatim>\<open>isEmail\<close> of express-validator, \<^verbatim>\<open>bcrypt.hash(plain, salt)\<close> and
  \<^verbatim>\<open>bcrypt.compare(candidate, hash)\<close>.
\<close>

record lib =
  isEmail :: "string \<Rightarrow> bool"
  bcryptHash :: "string \<Rightarrow> string \<Rightarrow> string"
  bcryptCompare :: "string \<Rightarrow> string \<Rightarrow> bool"

text \<open>
  What one request reads from its environment: the clock (\<^verbatim>\<open>Date.now\<close>, in
  milliseconds), the value of \<^verbatim>\<open>Math.random()\<close>, the salt returned by
  \<^verbatim>\<open>bcrypt.genSalt(10)\<close>, and whether the mail transport delivers.
\<close>

record env =
  dateNow :: nat
  mathRandom :: real
  genSalt :: string
  sendMailOk :: bool

text \<open>The \<^verbatim>\<open>error.message\<close> of an exception caught by a route.\<close>

datatype failure = FailedToSendEmail | DuplicateKey | SchemaValidation

text \<open>\<^verbatim>\<open>jwt.sign({ clubId }, secret, { expiresIn })\<close>: payload and validity.\<close>

record token =
  t_clubId :: nat
  t_expiresIn :: string

record clubView =
  v_id :: nat
  v_name :: string
  v_email :: string
  v_description :: string

datatype response =
    ValidationErrors "string list"
  | DuplicateActive
  | OtpSent string
  | InvalidOrExpired
  | ClubNotFound
  | Authenticated string token clubView
  | NoUnverifiedClub
  | NoVerifiedClub
  | InvalidCredentials
  | NotVerified
  | Done string
  | ServerError string failure

text \<open>The HTTP status each response is sent with.\<close>

fun status :: "response \<Rightarrow> nat" where
  "status (ValidationErrors errs) = 400"
| "status DuplicateActive = 400"
| "status (OtpSent email) = 201"
| "status InvalidOrExpired = 400"
| "status ClubNotFound = 404"
| "status (Authenticated msg tok view) = 200"
| "status NoUnverifiedClub = 404"
| "status NoVerifiedClub = 404"
| "status InvalidCredentials = 401"
| "status NotVerified = 403"
| "status (Done msg) = 200"
| "status (ServerError msg err) = 500"

section \<open>Mongoose operations on the two models\<close>

text \<open>
  The setters of \<^verbatim>\<open>clubSchema\<close>: \<^verbatim>\<open>name\<close> has \<^verbatim>\<open>trim\<close>, \<^verbatim>\<open>email\<close> has
  \<^verbatim>\<open>trim\<close> and \<^verbatim>\<open>lowercase\<close>. Mongoose applies them to the fields of a new
  document and to the values of a query filter.
\<close>

definition castName :: "string \<Rightarrow> string" where
  "castName s = trim s"

definition castEmail :: "string \<Rightarrow> string" where
  "castEmail s = toLowerCase (trim s)"

definition jwtSign :: "nat \<Rightarrow> token" where
  "jwtSign i = \<lparr>t_clubId = i, t_expiresIn = ''7d''\<rparr>"

definition viewOf :: "club \<Rightarrow> clubView" where
  "viewOf c = \<lparr>v_id = c_id c, v_name = c_name c, v_email = c_email c,
               v_description = c_description c\<rparr>"

text \<open>\<^verbatim>\<open>Club.findOne({ $or: [{ email }, { name }] })\<close>\<close>

definition findByEmailOrName :: "string \<Rightarrow> string \<Rightarrow> db \<Rightarrow> club option" where
  "findByEmailOrName email name s =
     find (\<lambda>c. c_email c = castEmail email \<or> c_name c = castName name) (clubs s)"

text \<open>\<^verbatim>\<open>Club.findOne({ email })\<close>\<close>

definition findByEmail :: "string \<Rightarrow> db \<Rightarrow> club option" where
  "findByEmail email s = find (\<lambda>c. c_email c = castEmail email) (clubs s)"

text \<open>\<^verbatim>\<open>Club.findOne({ email, verified })\<close>\<close>

definition findByEmailVerified :: "string \<Rightarrow> bool \<Rightarrow> db \<Rightarrow> club option" where
  "findByEmailVerified email v s =
     find (\<lambda>c. c_email c = castEmail email \<and> c_verified c = v) (clubs s)"

text \<open>\<^verbatim>\<open>Club.findById\<close>, as the protected routes resolve a club id.\<close>

definition findById :: "nat \<Rightarrow> db \<Rightarrow> club option" where
  "findById i s = find (\<lambda>c. c_id c = i) (clubs s)"

text \<open>\<^verbatim>\<open>Club.findByIdAndDelete\<close>; \<^verbatim>\<open>_id\<close> is the primary key of the collection.\<close>

definition findByIdAndDelete :: "nat \<Rightarrow> db \<Rightarrow> db" where
  "findByIdAndDelete i s = s\<lparr>clubs := filter (\<lambda>c. c_id c \<noteq> i) (clubs s)\<rparr>"

text \<open>
  \<^verbatim>\<open>new Club({ name, description, email, password, verified: false })\<close>: the
  constructor draws the \<^verbatim>\<open>_id\<close> and applies the setters and defaults.
\<close>

definition newClub :: "env \<Rightarrow> nat \<Rightarrow> string \<Rightarrow> string \<Rightarrow> string \<Rightarrow> string \<Rightarrow> club" where
  "newClub e i name description email password =
     \<lparr>c_id = i, c_name = castName name, c_description = description,
      c_email = castEmail email, c_password = password, c_verified = False,
      c_members = [], c_events = [], c_createdAt = dateNow e\<rparr>"

text \<open>
  \<^verbatim>\<open>club.save()\<close> of a new document: schema validation (\<^verbatim>\<open>required\<close>,
  \<^verbatim>\<open>minlength: 6\<close>), then the \<^verbatim>\<open>pre('save')\<close> hook, which replaces the password
  by its salted hash, then the insert, which the unique indexes on \<^verbatim>\<open>name\<close> and
  \<^verbatim>\<open>email\<close> reject when another document holds either value.
\<close>

definition saveNew :: "lib \<Rightarrow> env \<Rightarrow> club \<Rightarrow> db \<Rightarrow> failure + db" where
  "saveNew L e c s =
     (if c_name c = [] \<or> c_description c = [] \<or> c_email c = [] \<or> length (c_password c) < 6
      then Inl SchemaValidation
      else if find (\<lambda>d. c_name d = c_name c \<or> c_email d = c_email c) (clubs s) \<noteq> None
      then Inl DuplicateKey
      else Inr (s\<lparr>clubs := clubs s @ [c\<lparr>c_password := bcryptHash L (c_password c) (genSalt e)\<rparr>]\<rparr>))"

text \<open>
  \<^verbatim>\<open>club.verified = true; await club.save()\<close> on a loaded document: the password
  is not modified, so the hook returns at once and only \<^verbatim>\<open>verified\<close> is written.
\<close>

definition saveVerified :: "club \<Rightarrow> db \<Rightarrow> db" where
  "saveVerified c s =
     s\<lparr>clubs := map (\<lambda>d. if c_id d = c_id c then d\<lparr>c_verified := True\<rparr> else d) (clubs s)\<rparr>"

text \<open>
  \<^verbatim>\<open>club.password = newPassword; await club.save()\<close> on a loaded document: the
  hook hashes the password when the assignment modified it.
\<close>

definition savePassword :: "lib \<Rightarrow> env \<Rightarrow> club \<Rightarrow> string \<Rightarrow> db \<Rightarrow> db" where
  "savePassword L e c newPassword s =
     (if newPassword = c_password c then s
      else s\<lparr>clubs := map (\<lambda>d. if c_id d = c_id c
                                then d\<lparr>c_password := bcryptHash L newPassword (genSalt e)\<rparr>
                                else d) (clubs s)\<rparr>)"

text \<open>\<^verbatim>\<open>club.comparePassword(candidatePassword)\<close>\<close>

definition comparePassword :: "lib \<Rightarrow> club \<Rightarrow> string \<Rightarrow> bool" where
  "comparePassword L c candidatePassword = bcryptCompare L candidatePassword (c_password c)"

text \<open>\<^verbatim>\<open>OTP.create({ email, otp })\<close>\<close>

definition otpCreate :: "env \<Rightarrow> string \<Rightarrow> string \<Rightarrow> db \<Rightarrow> db" where
  "otpCreate e email otp s =
     s\<lparr>otps := otps s @ [\<lparr>o_email = email, o_otp = otp, o_createdAt = dateNow e\<rparr>]\<rparr>"

text \<open>\<^verbatim>\<open>OTP.findOne({ email, otp })\<close>\<close>

definition otpFindOne :: "string \<Rightarrow> string \<Rightarrow> db \<Rightarrow> otpDoc option" where
  "otpFindOne email otp s = find (\<lambda>r. o_email r = email \<and> o_otp r = otp) (otps s)"

fun removeFirst :: "('a \<Rightarrow> bool) \<Rightarrow> 'a list \<Rightarrow> 'a list" where
  "removeFirst P [] = []"
| "removeFirst P (x # xs) = (if P x then xs else x # removeFirst P xs)"

text \<open>\<^verbatim>\<open>OTP.deleteOne({ email, otp })\<close>: the first matching document goes.\<close>

definition otpDeleteOne :: "string \<Rightarrow> string \<Rightarrow> db \<Rightarrow> db" where
  "otpDeleteOne email otp s =
     s\<lparr>otps := removeFirst (\<lambda>r. o_email r = email \<and> o_otp r = otp) (otps s)\<rparr>"

text \<open>\<^verbatim>\<open>OTP.deleteMany({ email })\<close>\<close>

definition otpDeleteMany :: "string \<Rightarrow> db \<Rightarrow> db" where
  "otpDeleteMany email s = s\<lparr>otps := filter (\<lambda>r. o_email r \<noteq> email) (otps s)\<rparr>"

section \<open>The mail service (emailService.js)\<close>

text \<open>
  \<^verbatim>\<open>sendOTPEmail\<close>: the transport either delivers or throws; a throw is caught and
  rethrown as \<^verbatim>\<open>new Error('Failed to send email')\<close>.
\<close>

definition sendOTPEmail :: "env \<Rightarrow> string \<Rightarrow> string \<Rightarrow> failure + unit" where
  "sendOTPEmail e email otp = (if sendMailOk e then Inr () else Inl FailedToSendEmail)"

section \<open>The authentication routes\<close>

subsection \<open>POST /signup\<close>

definition signupErrors :: "lib \<Rightarrow> string \<Rightarrow> string \<Rightarrow> string \<Rightarrow> string \<Rightarrow> string list" where
  "signupErrors L name description email password =
     (if name = [] then [''Club name is required''] else []) @
     (if description = [] then [''Description is required''] else []) @
     (if isEmail L email then [] else [''Valid email is required'']) @
     (if 6 \<le> length password then [] else [''Password must be at least 6 characters''])"

text \<open>Lines 40 to 62: create the club, issue the OTP, send the mail.\<close>

definition signupCreate ::
  "lib \<Rightarrow> env \<Rightarrow> db \<Rightarrow> string \<Rightarrow> string \<Rightarrow> string \<Rightarrow> string \<Rightarrow> response \<times> db" where
  "signupCreate L e s name description email password =
     (let club = newClub e (nextId s) name description email password;
          s1 = s\<lparr>nextId := Suc (nextId s)\<rparr>
      in case saveNew L e club s1 of
           Inl err \<Rightarrow> (ServerError ''Error during signup'' err, s1)
         | Inr s2 \<Rightarrow>
             (let otp = generateOTP (mathRandom e);
                  s3 = otpCreate e email otp s2
              in case sendOTPEmail e email otp of
                   Inl err \<Rightarrow> (ServerError ''Error during signup'' err, s3)
                 | Inr u \<Rightarrow> (OtpSent email, s3)))"

text \<open>
  The request body is \<open>name0\<close>, \<open>description0\<close>, \<open>email\<close>, \<open>password\<close>; the
  validation chain trims the first two in place.
\<close>

definition signup ::
  "lib \<Rightarrow> env \<Rightarrow> db \<Rightarrow> string \<Rightarrow> string \<Rightarrow> string \<Rightarrow> string \<Rightarrow> response \<times> db" where
  "signup L e s name0 description0 email password =
     (let name = trim name0; description = trim description0;
          errors = signupErrors L name description email password
      in if errors \<noteq> [] then (ValidationErrors errors, s)
         else case findByEmailOrName email name s of
                Some existingClub \<Rightarrow>
                  if c_verified existingClub then (DuplicateActive, s)
                  else signupCreate L e (findByIdAndDelete (c_id existingClub) s)
                         name description email password
              | None \<Rightarrow> signupCreate L e s name description email password)"

subsection \<open>POST /verify-otp\<close>

definition otpErrors :: "lib \<Rightarrow> string \<Rightarrow> string \<Rightarrow> string list" where
  "otpErrors L email otp =
     (if isEmail L email then [] else [''Valid email is required'']) @
     (if length otp = 6 then [] else [''OTP must be 6 digits''])"

definition verifyOtp :: "lib \<Rightarrow> env \<Rightarrow> db \<Rightarrow> string \<Rightarrow> string \<Rightarrow> response \<times> db" where
  "verifyOtp L e s email otp =
     (let errors = otpErrors L email otp
      in if errors \<noteq> [] then (ValidationErrors errors, s)
         else case otpFindOne email otp s of
                None \<Rightarrow> (InvalidOrExpired, s)
              | Some otpRecord \<Rightarrow>
                  (case findByEmail email s of
                     None \<Rightarrow> (ClubNotFound, s)
                   | Some club \<Rightarrow>
                       (Authenticated ''Email verified successfully'' (jwtSign (c_id club))
                          (viewOf club),
                        otpDeleteOne email otp (saveVerified club s))))"

subsection \<open>POST /resend-otp\<close>

definition emailErrors :: "lib \<Rightarrow> string \<Rightarrow> string list" where
  "emailErrors L email = (if isEmail L email then [] else [''Valid email is required''])"

text \<open>Delete the old OTPs, create the new one, send it (shared by two routes).\<close>

definition reissue :: "env \<Rightarrow> db \<Rightarrow> string \<Rightarrow> string \<Rightarrow> string \<Rightarrow> response \<times> db" where
  "reissue e s email okMsg errMsg =
     (let s1 = otpDeleteMany email s;
          otp = generateOTP (mathRandom e);
          s2 = otpCreate e email otp s1
      in case sendOTPEmail e email otp of
           Inl err \<Rightarrow> (ServerError errMsg err, s2)
         | Inr u \<Rightarrow> (Done okMsg, s2))"

definition resendOtp :: "lib \<Rightarrow> env \<Rightarrow> db \<Rightarrow> string \<Rightarrow> response \<times> db" where
  "resendOtp L e s email =
     (let errors = emailErrors L email
      in if errors \<noteq> [] then (ValidationErrors errors, s)
         else case findByEmailVerified email False s of
                None \<Rightarrow> (NoUnverifiedClub, s)
              | Some club \<Rightarrow>
                  reissue e s email ''New OTP sent to your email'' ''Error resending OTP'')"

subsection \<open>POST /login\<close>

definition loginErrors :: "lib \<Rightarrow> string \<Rightarrow> string \<Rightarrow> string list" where
  "loginErrors L email password =
     (if isEmail L email then [] else [''Valid email is required'']) @
     (if password \<noteq> [] then [] else [''Password is required''])"

definition login :: "lib \<Rightarrow> env \<Rightarrow> db \<Rightarrow> string \<Rightarrow> string \<Rightarrow> response \<times> db" where
  "login L e s email password =
     (let errors = loginErrors L email password
      in if errors \<noteq> [] then (ValidationErrors errors, s)
         else case findByEmail email s of
                None \<Rightarrow> (InvalidCredentials, s)
              | Some club \<Rightarrow>
                  if \<not> c_verified club then (NotVerified, s)
                  else if \<not> comparePassword L club password then (InvalidCredentials, s)
                  else (Authenticated ''Login successful'' (jwtSign (c_id club)) (viewOf club), s))"

subsection \<open>POST /forgot-password\<close>

definition forgotPassword :: "lib \<Rightarrow> env \<Rightarrow> db \<Rightarrow> string \<Rightarrow> response \<times> db" where
  "forgotPassword L e s email =
     (let errors = emailErrors L email
      in if errors \<noteq> [] then (ValidationErrors errors, s)
         else case findByEmailVerified email True s of
                None \<Rightarrow> (NoVerifiedClub, s)
              | Some club \<Rightarrow>
                  reissue e s email ''Password reset OTP sent to your email''
                    ''Error sending reset OTP'')"

subsection \<open>POST /reset-password\<close>

definition resetErrors :: "lib \<Rightarrow> string \<Rightarrow> string \<Rightarrow> string \<Rightarrow> string list" where
  "resetErrors L email otp newPassword =
     otpErrors L email otp @
     (if 6 \<le> length newPassword then [] else [''Password must be at least 6 characters''])"

definition resetPassword ::
  "lib \<Rightarrow> env \<Rightarrow> db \<Rightarrow> string \<Rightarrow> string \<Rightarrow> string \<Rightarrow> response \<times> db" where
  "resetPassword L e s email otp newPassword =
     (let errors = resetErrors L email otp newPassword
      in if errors \<noteq> [] then (ValidationErrors errors, s)
         else case otpFindOne email otp s of
                None \<Rightarrow> (InvalidOrExpired, s)
              | Some otpRecord \<Rightarrow>
                  (case findByEmailVerified email True s of
                     None \<Rightarrow> (ClubNotFound, s)
                   | Some club \<Rightarrow>
                       (Done ''Password reset successfully. You can now login with your new password.'',
                        otpDeleteOne email otp (savePassword L e club newPassword s))))"

section \<open>Sequences of requests\<close>

datatype request =
    Signup string string string string
  | VerifyOtp string string
  | ResendOtp string
  | Login string string
  | ForgotPassword string
  | ResetPassword string string string

fun handle :: "lib \<Rightarrow> env \<Rightarrow> db \<Rightarrow> request \<Rightarrow> response \<times> db" where
  "handle L e s (Signup name description email password) =
     signup L e s name description email password"
| "handle L e s (VerifyOtp email otp) = verifyOtp L e s email otp"
| "handle L e s (ResendOtp email) = resendOtp L e s email"
| "handle L e s (Login email password) = login L e s email password"
| "handle L e s (ForgotPassword email) = forgotPassword L e s email"
| "handle L e s (ResetPassword email otp newPassword) =
     resetPassword L e s email otp newPassword"

text \<open>The database after a sequence of requests, each with its environment.\<close>

fun run :: "lib \<Rightarrow> db \<Rightarrow> (env \<times> request) list \<Rightarrow> db" where
  "run L s [] = s"
| "run L s ((e, rq) # rest) = run L (snd (handle L e s rq)) rest"

text \<open>
  What the collection guarantees of the clubs: ids come from \<open>nextId\<close>, and the primary
  key and the two unique indexes admit no duplicates.
\<close>

definition wellFormed :: "db \<Rightarrow> bool" where
  "wellFormed s \<longleftrightarrow>
     list_all (\<lambda>c. c_id c < nextId s) (clubs s) \<and> distinct (map c_id (clubs s)) \<and>
     distinct (map c_email (clubs s)) \<and> distinct (map c_name (clubs s))"

text \<open>
  An environment whose \<^verbatim>\<open>Math.random()\<close> value lies in \<open>[0, 1)\<close>: no binary64
  number below 1 exceeds \<open>1 - 2 ^ - 53\<close>.
\<close>

definition envOk :: "env \<Rightarrow> bool" where
  "envOk e \<longleftrightarrow> 0 \<le> mathRandom e \<and> mathRandom e \<le> 1 - 1 / 2 ^ 53"

text \<open>
  What the routes guarantee of the stored OTP records: the email passed \<^verbatim>\<open>isEmail\<close>
  and the code has six characters.
\<close>

definition otpStoreOk :: "lib \<Rightarrow> db \<Rightarrow> bool" where
  "otpStoreOk L s = list_all (\<lambda>r. isEmail L (o_email r) \<and> length (o_otp r) = 6) (otps s)"

text \<open>The new document as the \<^verbatim>\<open>pre('save')\<close> hook leaves it.\<close>

definition hashed :: "lib \<Rightarrow> env \<Rightarrow> club \<Rightarrow> club" where
  "hashed L e c = c\<lparr>c_password := bcryptHash L (c_password c) (genSalt e)\<rparr>"

text \<open>The same database with other creation times on its OTP records.\<close>

definition redate :: "(otpDoc \<Rightarrow> nat) \<Rightarrow> db \<Rightarrow> db" where
  "redate f s = s\<lparr>otps := map (\<lambda>r. r\<lparr>o_createdAt := f r\<rparr>) (otps s)\<rparr>"

section \<open>Concrete requests\<close>

text \<open>
  An instance of the library functions and the empty database, on which the routes are
  run at concrete requests below. Its hash is a two-character salt followed by the
  plain text, so that the comparison accepts exactly the hashed plain text.
\<close>

definition sampleLib :: lib where
  "sampleLib = \<lparr>isEmail = (\<lambda>s. CHR ''@'' \<in> set s),
                bcryptHash = (\<lambda>plain salt. take 2 (salt @ ''$$'') @ plain),
                bcryptCompare = (\<lambda>candidate hash. drop 2 hash = candidate)\<rparr>"

definition emptyDb :: db where
  "emptyDb = \<lparr>clubs = [], otps = [], nextId = 0\<rparr>"

definition sampleEnv :: "nat \<Rightarrow> real \<Rightarrow> bool \<Rightarrow> env" where
  "sampleEnv t r ok = \<lparr>dateNow = t, mathRandom = r, genSalt = ''s$'', sendMailOk = ok\<rparr>"

definition chessClub :: "nat \<Rightarrow> nat \<Rightarrow> bool \<Rightarrow> club" where
  "chessClub i t v =
     \<lparr>c_id = i, c_name = ''Chess Club'', c_description = ''We play chess'',
      c_email = ''a@x.com'', c_password = ''s$secret1'', c_verified = v,
      c_members = [], c_events = [], c_createdAt = t\<rparr>"

definition goClub :: "nat \<Rightarrow> nat \<Rightarrow> bool \<Rightarrow> club" where
  "goClub i t v =
     \<lparr>c_id = i, c_name = ''Go Club'', c_description = ''We play go'',
      c_email = ''b@x.com'', c_password = ''s$secret2'', c_verified = v,
      c_members = [], c_events = [], c_createdAt = t\<rparr>"

definition otpFor :: "string \<Rightarrow> string \<Rightarrow> nat \<Rightarrow> otpDoc" where
  "otpFor email code t = \<lparr>o_email = email, o_otp = code, o_createdAt = t\<rparr>"

definition signupChess :: request where
  "signupChess = Signup ''Chess Club'' ''We play chess'' ''a@x.com'' ''secret1''"

definition signupGo :: request where
  "signupGo = Signup ''Go Club'' ''We play go'' ''b@x.com'' ''secret2''"

text \<open>One signup, not yet verified.\<close>

definition dbChess :: db where
  "dbChess = run sampleLib emptyDb [(sampleEnv 0 0 True, signupChess)]"

text \<open>The same signup twice, the codes drawn being different, or the same.\<close>

definition dbChessTwice :: db where
  "dbChessTwice = run sampleLib emptyDb
     [(sampleEnv 0 0 True, signupChess), (sampleEnv 1000 (1 / 2) True, signupChess)]"

definition dbChessSameCode :: db where
  "dbChessSameCode = run sampleLib emptyDb
     [(sampleEnv 0 0 True, signupChess), (sampleEnv 1000 0 True, signupChess)]"

text \<open>An unverified club, then a second club that verifies its email.\<close>

definition dbChessGo :: db where
  "dbChessGo = run sampleLib emptyDb
     [(sampleEnv 0 0 True, signupChess), (sampleEnv 1000 (1 / 2) True, signupGo),
      (sampleEnv 2000 0 True, VerifyOtp ''b@x.com'' ''550000'')]"

text \<open>Two clubs, both unverified.\<close>

definition dbTwoUnverified :: db where
  "dbTwoUnverified = run sampleLib emptyDb
     [(sampleEnv 0 0 True, signupChess), (sampleEnv 1000 (1 / 2) True, signupGo)]"

text \<open>A verified club, then an unverified one.\<close>

definition dbGoChess :: db where
  "dbGoChess = run sampleLib emptyDb
     [(sampleEnv 0 (1 / 2) True, signupGo),
      (sampleEnv 1000 0 True, VerifyOtp ''b@x.com'' ''550000''),
      (sampleEnv 2000 0 True, signupChess)]"

text \<open>A verified club that asked for a password reset.\<close>

definition dbGoForgot :: db where
  "dbGoForgot = run sampleLib emptyDb
     [(sampleEnv 0 (1 / 2) True, signupGo),
      (sampleEnv 1000 0 True, VerifyOtp ''b@x.com'' ''550000''),
      (sampleEnv 2000 0 True, ForgotPassword ''b@x.com'')]"

text \<open>A signup whose name is taken over by a signup with another email.\<close>

definition dbOrphan :: db where
  "dbOrphan = run sampleLib emptyDb
     [(sampleEnv 0 0 True, signupChess),
      (sampleEnv 1000 (1 / 2) True,
       Signup ''Chess Club'' ''We play chess'' ''c@x.com'' ''secret1'')]"


section \<open>Facts about the OTP generator\<close>

lemma digit_cases: "d < 10 \<Longrightarrow> d \<in> {0, 1, 2, 3, 4, 5, 6, 7, 8, 9::nat}"
  by auto

lemma digitChar_isDigit: "d < 10 \<Longrightarrow> isDigit (digitChar d)"
  using digit_cases [of d] by (auto simp: isDigit_def digitChar_def)

lemma digitChar_zero_iff: "d < 10 \<Longrightarrow> digitChar d = CHR ''0'' \<longleftrightarrow> d = 0"
  using digit_cases [of d] by (auto simp: digitChar_def)

lemma digitsOf_all_digits: "\<forall>c \<in> set (digitsOf n). isDigit c"
proof (induction n rule: digitsOf.induct)
  case (1 n)
  show ?case
  proof (cases "n < 10")
    case True
    then show ?thesis by (simp add: digitsOf.simps [of n] digitChar_isDigit)
  next
    case False
    with "1" show ?thesis
      by (simp add: digitsOf.simps [of n] digitChar_isDigit)
  qed
qed

lemma digitsOf_length:
  "10 ^ k \<le> n \<Longrightarrow> n < 10 ^ Suc k \<Longrightarrow> length (digitsOf n) = Suc k"
proof (induction k arbitrary: n)
  case 0
  then show ?case by (simp add: digitsOf.simps [of n])
next
  case (Suc k)
  have "(10::nat) \<le> 10 ^ Suc k" by simp
  with Suc.prems have big: "\<not> n < 10" by linarith
  from Suc.prems have a: "10 ^ k \<le> n div 10" by simp
  from Suc.prems have b: "n div 10 < 10 ^ Suc k" by simp
  from a b have "length (digitsOf (n div 10)) = Suc k" by (rule Suc.IH)
  with big show ?case by (simp add: digitsOf.simps [of n])
qed

lemma digitsOf_nonempty: "digitsOf n \<noteq> []"
  by (simp add: digitsOf.simps [of n])

lemma digitsOf_hd: "0 < n \<Longrightarrow> hd (digitsOf n) \<noteq> CHR ''0''"
proof (induction n rule: digitsOf.induct)
  case (1 n)
  show ?case
  proof (cases "n < 10")
    case True
    with "1.prems" show ?thesis
      by (simp add: digitsOf.simps [of n] digitChar_zero_iff)
  next
    case False
    then have "0 < n div 10" by (simp add: div_greater_zero_iff)
    with False "1.IH" have "hd (digitsOf (n div 10)) \<noteq> CHR ''0''" by simp
    with False show ?thesis
      by (simp add: digitsOf.simps [of n] digitsOf_nonempty)
  qed
qed

lemma toString_six:
  assumes "100000 \<le> n" "n \<le> 999999"
  shows "length (toString n) = 6 \<and> (\<forall>c\<in>set (toString n). isDigit c) \<and> hd (toString n) \<noteq> CHR ''0''"
proof -
  from assms have pos: "\<not> n < 0" by simp
  from assms have a: "10 ^ 5 \<le> nat n" by simp
  from assms have b: "nat n < 10 ^ Suc 5" by simp
  from a b have "length (digitsOf (nat n)) = Suc 5" by (rule digitsOf_length)
  moreover from assms have "0 < nat n" by simp
  then have "hd (digitsOf (nat n)) \<noteq> CHR ''0''" by (rule digitsOf_hd)
  ultimately show ?thesis
    using pos digitsOf_all_digits [of "nat n"] by (simp add: toString_def)
qed

section \<open>Facts about binary64 rounding\<close>

lemma round_cases: "roundTiesToEven y = \<lfloor>y\<rfloor> \<or> roundTiesToEven y = \<lfloor>y\<rfloor> + 1"
  by (simp add: roundTiesToEven_def Let_def)

lemma round_down: "y - of_int \<lfloor>y\<rfloor> < 1 / 2 \<Longrightarrow> roundTiesToEven y = \<lfloor>y\<rfloor>"
  by (simp add: roundTiesToEven_def Let_def)


lemma round_ge: "of_int k \<le> y \<Longrightarrow> k \<le> roundTiesToEven y"
proof -
  assume "of_int k \<le> y"
  then have "k \<le> \<lfloor>y\<rfloor>" by (simp add: le_floor_iff)
  with round_cases [of y] show ?thesis by linarith
qed

lemma round_below_half: "y < of_int k + 1 / 2 \<Longrightarrow> roundTiesToEven y \<le> k"
proof -
  assume a: "y < of_int k + 1 / 2"
  have "of_int \<lfloor>y\<rfloor> \<le> y" by simp
  with a have "of_int \<lfloor>y\<rfloor> < (of_int k :: real) + 1" by linarith
  then have "of_int \<lfloor>y\<rfloor> < (of_int (k + 1) :: real)" by simp
  then have le: "\<lfloor>y\<rfloor> < k + 1" by (simp only: of_int_less_iff)
  show ?thesis
  proof (cases "\<lfloor>y\<rfloor> = k")
    case True
    with a have "y - of_int \<lfloor>y\<rfloor> < 1 / 2" by simp
    then have "roundTiesToEven y = \<lfloor>y\<rfloor>" by (rule round_down)
    with True show ?thesis by simp
  next
    case False
    with le have "\<lfloor>y\<rfloor> + 1 \<le> k" by simp
    with round_cases [of y] show ?thesis by linarith
  qed
qed

lemma round_le: "y \<le> of_int k \<Longrightarrow> roundTiesToEven y \<le> k"
  by (rule round_below_half) simp


lemma ulp_pos: "0 < ulp x"
  by (simp add: ulp_def)

lemma exponent_binade:
  assumes "2 ^ n \<le> x" "x < 2 ^ Suc n"
  shows "exponent x = int n"
proof -
  have "(0::real) < 2 ^ n" by simp
  with assms have pos: "0 < x" by linarith
  have a: "2 powr real_of_int (int n) \<le> x"
    using assms(1) by (simp add: powr_realpow)
  have "2 powr (real_of_int (int n) + 1) = 2 ^ Suc n"
    by (simp add: powr_add powr_realpow)
  with assms(2) have b: "x < 2 powr (real_of_int (int n) + 1)" by simp
  from a b pos have "\<lfloor>log 2 x\<rfloor> = int n"
    by (simp add: floor_log_eq_powr_iff)
  with pos show ?thesis by (simp add: exponent_def)
qed

lemma ulp_binade:
  assumes "2 ^ n \<le> x" "x < 2 ^ Suc n" "n \<le> 52"
  shows "ulp x = 1 / 2 ^ (52 - n)"
proof -
  have "exponent x - 52 = - int (52 - n)"
    using exponent_binade [OF assms(1,2)] assms(3) by simp
  then have "ulp x = 2 powr (- real (52 - n))" by (simp add: ulp_def)
  also have "\<dots> = 1 / 2 ^ (52 - n)"
    by (simp add: powr_minus powr_realpow divide_inverse)
  finally show ?thesis .
qed

lemma fl64_nonneg: "0 \<le> x \<Longrightarrow> 0 \<le> fl64 x"
proof (cases "x = 0")
  case True
  then show ?thesis by (simp add: fl64_def)
next
  case False
  assume "0 \<le> x"
  then have "of_int 0 \<le> x / ulp x" using ulp_pos [of x] by simp
  then have "0 \<le> roundTiesToEven (x / ulp x)" by (rule round_ge)
  with False show ?thesis using ulp_pos [of x] by (simp add: fl64_def)
qed

text \<open>Rounding does not cross a number of the grid it rounds to.\<close>

lemma fl64_grid:
  assumes "x \<noteq> 0" and "a = of_int k * ulp x"
  shows "(a \<le> x \<longrightarrow> a \<le> fl64 x) \<and> (x \<le> a \<longrightarrow> fl64 x \<le> a)"
proof (intro conjI impI)
  assume "a \<le> x"
  with assms(2) have "of_int k \<le> x / ulp x"
    using ulp_pos [of x] by (simp add: pos_le_divide_eq)
  then have "k \<le> roundTiesToEven (x / ulp x)" by (rule round_ge)
  then have "of_int k * ulp x \<le> of_int (roundTiesToEven (x / ulp x)) * ulp x"
    using ulp_pos [of x] by simp
  with assms show "a \<le> fl64 x" by (simp add: fl64_def)
next
  assume "x \<le> a"
  with assms(2) have "x / ulp x \<le> of_int k"
    using ulp_pos [of x] by (simp add: pos_divide_le_eq)
  then have "roundTiesToEven (x / ulp x) \<le> k" by (rule round_le)
  then have "of_int (roundTiesToEven (x / ulp x)) * ulp x \<le> of_int k * ulp x"
    using ulp_pos [of x] by simp
  with assms show "fl64 x \<le> a" by (simp add: fl64_def)
qed

text \<open>Between 1 and \<open>2 ^ 20\<close> the grid contains every multiple of \<open>2 ^ - 33\<close>.\<close>

lemma binade_exists:
  assumes "1 \<le> (x::real)" "x < 2 ^ 20"
  shows "\<exists>n. n \<le> 19 \<and> 2 ^ n \<le> x \<and> x < 2 ^ Suc n"
proof -
  let ?n = "nat \<lfloor>log 2 x\<rfloor>"
  from assms have pos: "0 < x" by simp
  from assms have "0 \<le> log 2 x" by simp
  then have f0: "0 \<le> \<lfloor>log 2 x\<rfloor>" by simp
  have "2 powr real_of_int \<lfloor>log 2 x\<rfloor> \<le> x \<and> x < 2 powr (real_of_int \<lfloor>log 2 x\<rfloor> + 1)"
    using pos floor_log_eq_powr_iff [of x 2 "\<lfloor>log 2 x\<rfloor>"] by simp
  moreover have "real_of_int \<lfloor>log 2 x\<rfloor> = real ?n" using f0 by simp
  ultimately have b: "2 powr real ?n \<le> x \<and> x < 2 powr (real ?n + 1)" by simp
  then have lo: "2 ^ ?n \<le> x" by (simp add: powr_realpow)
  from b have hi: "x < 2 ^ Suc ?n" by (simp add: powr_add powr_realpow)
  have "?n \<le> 19"
  proof (rule ccontr)
    assume "\<not> ?n \<le> 19"
    then have "20 \<le> ?n" by simp
    then have "(2::real) ^ 20 \<le> 2 ^ ?n" by (intro power_increasing) simp_all
    with lo assms(2) show False by linarith
  qed
  with lo hi show ?thesis by blast
qed

lemma fl64_grid33:
  assumes "1 \<le> x" "x < 2 ^ 20" and "a = of_int k / 2 ^ 33"
  shows "(a \<le> x \<longrightarrow> a \<le> fl64 x) \<and> (x \<le> a \<longrightarrow> fl64 x \<le> a)"
proof -
  from binade_exists [OF assms(1,2)] obtain n where
    n: "n \<le> 19" "2 ^ n \<le> x" "x < 2 ^ Suc n" by blast
  then have u: "ulp x = 1 / 2 ^ (52 - n)" by (intro ulp_binade) simp_all
  from n(1) have "52 - n = 33 + (19 - n)" by simp
  then have "(2::real) ^ (52 - n) = 2 ^ 33 * 2 ^ (19 - n)" by (simp only: power_add)
  then have "a = of_int (k * 2 ^ (19 - n)) * ulp x"
    by (simp add: assms(3) u)
  moreover from assms(1) have "x \<noteq> 0" by simp
  ultimately show ?thesis by (rule fl64_grid [rotated])
qed

lemma fl64_exact33:
  assumes "1 \<le> a" "a < 2 ^ 20" "a = of_int k / 2 ^ 33"
  shows "fl64 a = a"
proof -
  from fl64_grid33 [OF assms] have "a \<le> fl64 a" "fl64 a \<le> a" by simp_all
  then show ?thesis by (rule antisym [rotated])
qed

lemma fl64_below_one:
  assumes "0 < x" "x < 1"
  shows "fl64 x \<le> 1"
proof -
  let ?e = "\<lfloor>log 2 x\<rfloor>"
  let ?E = "exponent x"
  from assms have "log 2 x < 0" by simp
  then have e: "?e \<le> - 1" by (simp add: floor_le_iff)
  with assms have E: "?E \<le> - 1" "?e \<le> ?E" by (simp_all add: exponent_def)
  have "x < 2 powr (real_of_int ?e + 1)"
    using assms floor_log_eq_powr_iff [of x 2 ?e] by simp
  also have "\<dots> \<le> 2 powr (real_of_int ?E + 1)"
    using E(2) by (simp add: powr_le_cancel_iff)
  finally have xb: "x < 2 powr (real_of_int ?E + 1)" .
  have split: "2 powr (real_of_int ?E + 1) = 2 ^ 53 * ulp x"
  proof -
    have "real_of_int ?E + 1 = 53 + real_of_int (?E - 52)" by simp
    then have "2 powr (real_of_int ?E + 1) = 2 powr 53 * 2 powr real_of_int (?E - 52)"
      by (simp only: powr_add)
    moreover have "(2::real) powr 53 = 2 ^ 53"
      using powr_realpow [of 2 53] by simp
    ultimately show ?thesis by (simp add: ulp_def)
  qed
  from xb split have "x / ulp x \<le> of_int (2 ^ 53)"
    using ulp_pos [of x] by (simp add: pos_divide_le_eq)
  then have "roundTiesToEven (x / ulp x) \<le> 2 ^ 53" by (rule round_le)
  then have "of_int (roundTiesToEven (x / ulp x)) * ulp x \<le> of_int (2 ^ 53) * ulp x"
    using ulp_pos [of x] by (simp only: mult_le_cancel_right_pos of_int_le_iff)
  then have "fl64 x \<le> 2 powr (real_of_int ?E + 1)"
    using assms split by (simp add: fl64_def)
  also have "\<dots> \<le> 1"
  proof -
    from E(1) have "real_of_int ?E + 1 \<le> 0" by linarith
    then have "2 powr (real_of_int ?E + 1) \<le> 2 powr 0"
      by (simp only: powr_le_cancel_iff) 
    then show ?thesis by simp
  qed
  finally show ?thesis .
qed

section \<open>The range of the OTP generator\<close>

lemma product_bounds:
  assumes "0 \<le> r" "r \<le> 1 - 1 / 2 ^ 53"
  shows "0 \<le> fl64 (r * 900000) \<and> fl64 (r * 900000) \<le> 900000 - 1 / 2 ^ 33"
proof -
  let ?p = "r * 900000"
  from assms have p0: "0 \<le> ?p" by simp
  from assms(2) have "?p \<le> (1 - 1 / 2 ^ 53) * 900000" by simp
  then have phi: "?p \<le> 900000 - 900000 / 2 ^ 53" by (simp add: algebra_simps)
  have up: "fl64 ?p \<le> 900000 - 1 / 2 ^ 33"
  proof -
    consider "?p = 0" | "0 < ?p" "?p < 1" | "1 \<le> ?p" "?p < 2 ^ 19" | "2 ^ 19 \<le> ?p"
      using p0 by linarith
    then show ?thesis
    proof cases
      case 1
      then show ?thesis by (simp add: fl64_def)
    next
      case 2
      then have "fl64 ?p \<le> 1" by (rule fl64_below_one)
      then show ?thesis by simp
    next
      case 3
      then have "?p < 2 ^ 20" by simp
      with 3(1) have "?p \<le> 2 ^ 19 \<longrightarrow> fl64 ?p \<le> 2 ^ 19"
        using fl64_grid33 [of ?p "2 ^ 19" "2 ^ 52"] by simp
      with 3(2) have "fl64 ?p \<le> 2 ^ 19" by simp
      then show ?thesis by simp
    next
      case 4
      from phi have lt: "?p < 2 ^ Suc 19" by simp
      from 4 lt have u: "ulp ?p = 1 / 2 ^ (52 - 19)" by (intro ulp_binade) simp_all
      then have u33: "ulp ?p = 1 / 2 ^ 33" by simp
      from phi have "?p * 2 ^ 33 \<le> (900000 - 900000 / 2 ^ 53) * 2 ^ 33" by simp
      also have "\<dots> < of_int (900000 * 2 ^ 33 - 1) + 1 / 2" by simp
      finally have "?p / ulp ?p < of_int (900000 * 2 ^ 33 - 1) + 1 / 2"
        by (simp add: u33)
      then have "roundTiesToEven (?p / ulp ?p) \<le> 900000 * 2 ^ 33 - 1"
        by (rule round_below_half)
      then have "of_int (roundTiesToEven (?p / ulp ?p)) * ulp ?p \<le>
                 of_int (900000 * 2 ^ 33 - 1) * ulp ?p"
        using ulp_pos [of ?p] by (simp only: mult_le_cancel_right_pos of_int_le_iff)
      moreover from 4 have "?p \<noteq> 0" by simp
      ultimately have "fl64 ?p \<le> of_int (900000 * 2 ^ 33 - 1) * ulp ?p"
        by (simp add: fl64_def)
      also have "\<dots> = 900000 - 1 / 2 ^ 33" by (simp add: u33)
      finally show ?thesis .
    qed
  qed
  from p0 have "0 \<le> fl64 ?p" by (rule fl64_nonneg)
  with up show ?thesis by simp
qed

lemma sum_bounds:
  assumes "0 \<le> q" "q \<le> 900000 - 1 / 2 ^ 33"
  shows "100000 \<le> fl64 (100000 + q) \<and> fl64 (100000 + q) \<le> 1000000 - 1 / 2 ^ 33"
proof -
  let ?x = "100000 + q"
  from assms have x1: "1 \<le> ?x" by simp
  from assms have x2: "?x < 2 ^ 20" by simp
  have "(100000::real) = of_int (100000 * 2 ^ 33) / 2 ^ 33" by simp
  from fl64_grid33 [OF x1 x2 this] assms(1) have lo: "100000 \<le> fl64 ?x" by simp
  have "(1000000::real) - 1 / 2 ^ 33 = of_int (1000000 * 2 ^ 33 - 1) / 2 ^ 33" by simp
  from fl64_grid33 [OF x1 x2 this] assms(2) have "fl64 ?x \<le> 1000000 - 1 / 2 ^ 33" by simp
  with lo show ?thesis by simp
qed




lemma otpNumber_bounds:
  assumes "0 \<le> r" "r \<le> 1 - 1 / 2 ^ 53"
  shows "100000 \<le> otpNumber r \<and> otpNumber r \<le> 999999"
proof -
  from product_bounds [OF assms] sum_bounds [of "fl64 (r * 900000)"]
  have b: "100000 \<le> fl64 (100000 + fl64 (r * 900000))"
    "fl64 (100000 + fl64 (r * 900000)) \<le> 1000000 - 1 / 2 ^ 33" by simp_all
  from b(1) have lo: "100000 \<le> otpNumber r" by (simp add: otpNumber_def le_floor_iff)
  from b(2) have "fl64 (100000 + fl64 (r * 900000)) < 1000000" by simp
  then have "otpNumber r < 1000000" by (simp add: otpNumber_def floor_less_iff)
  with lo show ?thesis by simp
qed

lemma otpNumber_zero: "otpNumber 0 = 100000"
proof -
  have "fl64 100000 = 100000"
    by (rule fl64_exact33 [of _ "100000 * 2 ^ 33"]) simp_all
  then show ?thesis by (simp add: otpNumber_def fl64_def)
qed

lemma otpNumber_half: "otpNumber (1 / 2) = 550000"
proof -
  have a: "fl64 450000 = 450000"
    by (rule fl64_exact33 [of _ "450000 * 2 ^ 33"]) simp_all
  have b: "fl64 550000 = 550000"
    by (rule fl64_exact33 [of _ "550000 * 2 ^ 33"]) simp_all
  show ?thesis by (simp add: otpNumber_def a b)
qed



lemma generateOTP_zero: "generateOTP 0 = ''100000''"
  by (simp add: generateOTP_def otpNumber_zero toString_def digitsOf.simps digitChar_def)

lemma generateOTP_half: "generateOTP (1 / 2) = ''550000''"
  by (simp add: generateOTP_def otpNumber_half toString_def digitsOf.simps digitChar_def)



lemma generateOTP_six:
  assumes "0 \<le> r" "r \<le> 1 - 1 / 2 ^ 53"
  shows "length (generateOTP r) = 6 \<and> (\<forall>c\<in>set (generateOTP r). isDigit c) \<and>
         hd (generateOTP r) \<noteq> CHR ''0''"
  using otpNumber_bounds [OF assms] toString_six [of "otpNumber r"]
  by (simp add: generateOTP_def)




section \<open>The routes, case by case\<close>

lemma otpErrors_Nil_iff: "otpErrors L email otp = [] \<longleftrightarrow> isEmail L email \<and> length otp = 6"
  by (simp add: otpErrors_def)

lemma resetErrors_Nil_iff:
  "resetErrors L email otp newPassword = [] \<longleftrightarrow>
     isEmail L email \<and> length otp = 6 \<and> 6 \<le> length newPassword"
  by (simp add: resetErrors_def otpErrors_def)

lemma loginErrors_Nil_iff:
  "loginErrors L email password = [] \<longleftrightarrow> isEmail L email \<and> password \<noteq> []"
  by (simp add: loginErrors_def)

lemma find_unique:
  "distinct (map f xs) \<Longrightarrow> x \<in> set xs \<Longrightarrow> f x = k \<Longrightarrow> find (\<lambda>y. f y = k) xs = Some x"
proof (induction xs)
  case Nil
  then show ?case by simp
next
  case (Cons a xs)
  then show ?case by (cases "a = x") (auto simp: image_iff)
qed

lemma verifyOtp_absent_iff:
  "otpErrors L email otp = [] \<Longrightarrow>
   fst (verifyOtp L e s email otp) = InvalidOrExpired \<longleftrightarrow> otpFindOne email otp s = None"
  by (simp add: verifyOtp_def split: option.splits)

lemma resetPassword_absent_iff:
  "resetErrors L email otp newPassword = [] \<Longrightarrow>
   fst (resetPassword L e s email otp newPassword) = InvalidOrExpired \<longleftrightarrow>
   otpFindOne email otp s = None"
  by (simp add: resetPassword_def split: option.splits)

lemma find_redate:
  "find (\<lambda>r. o_email r = email \<and> o_otp r = otp) (map (\<lambda>r. r\<lparr>o_createdAt := f r\<rparr>) xs) = None
   \<longleftrightarrow> find (\<lambda>r. o_email r = email \<and> o_otp r = otp) xs = None"
  by (induction xs) auto

lemma otpFindOne_redate:
  "otpFindOne email otp (redate f s) = None \<longleftrightarrow> otpFindOne email otp s = None"
  by (simp add: otpFindOne_def redate_def find_redate)

lemma findByEmail_redate: "findByEmail email (redate f s) = findByEmail email s"
  by (simp add: findByEmail_def redate_def)

lemma findByEmailVerified_redate:
  "findByEmailVerified email v (redate f s) = findByEmailVerified email v s"
  by (simp add: findByEmailVerified_def redate_def)

lemma verifyOtp_redate:
  "fst (verifyOtp L e' (redate f s) email otp) = fst (verifyOtp L e s email otp)"
proof (cases "otpFindOne email otp s")
  case None
  then have "otpFindOne email otp (redate f s) = None" by (simp add: otpFindOne_redate)
  with None show ?thesis by (simp add: verifyOtp_def Let_def)
next
  case (Some r)
  then have "otpFindOne email otp (redate f s) \<noteq> None" by (simp add: otpFindOne_redate)
  then obtain r' where "otpFindOne email otp (redate f s) = Some r'" by blast
  with Some show ?thesis
    by (simp add: verifyOtp_def Let_def findByEmail_redate split: option.splits)
qed

lemma resetPassword_redate:
  "fst (resetPassword L e' (redate f s) email otp newPassword) =
   fst (resetPassword L e s email otp newPassword)"
proof (cases "otpFindOne email otp s")
  case None
  then have "otpFindOne email otp (redate f s) = None" by (simp add: otpFindOne_redate)
  with None show ?thesis by (simp add: resetPassword_def Let_def)
next
  case (Some r)
  then have "otpFindOne email otp (redate f s) \<noteq> None" by (simp add: otpFindOne_redate)
  then obtain r' where "otpFindOne email otp (redate f s) = Some r'" by blast
  with Some show ?thesis
    by (simp add: resetPassword_def Let_def findByEmailVerified_redate split: option.splits)
qed

lemma verifyOtp_found:
  "otpErrors L email otp = [] \<Longrightarrow> otpFindOne email otp s = Some r \<Longrightarrow>
   findByEmail email s = Some c \<Longrightarrow>
   verifyOtp L e s email otp =
     (Authenticated ''Email verified successfully'' (jwtSign (c_id c)) (viewOf c),
      otpDeleteOne email otp (saveVerified c s))"
  by (simp add: verifyOtp_def)

lemma resetPassword_found:
  "resetErrors L email otp newPassword = [] \<Longrightarrow> otpFindOne email otp s = Some r \<Longrightarrow>
   findByEmailVerified email True s = Some c \<Longrightarrow>
   resetPassword L e s email otp newPassword =
     (Done ''Password reset successfully. You can now login with your new password.'',
      otpDeleteOne email otp (savePassword L e c newPassword s))"
  by (simp add: resetPassword_def)

lemma signupErrors_Nil_iff:
  "signupErrors L name description email password = [] \<longleftrightarrow>
     name \<noteq> [] \<and> description \<noteq> [] \<and> isEmail L email \<and> 6 \<le> length password"
  by (simp add: signupErrors_def)

lemma emailErrors_Nil_iff: "emailErrors L email = [] \<longleftrightarrow> isEmail L email"
  by (simp add: emailErrors_def)

lemma dropWhile_id: "xs = [] \<or> \<not> P (hd xs) \<Longrightarrow> dropWhile P xs = xs"
  by (cases xs) auto

lemma trim_idem: "trim (trim s) = trim s"
proof -
  let ?t = "dropWhile isSpace s"
  let ?u = "dropWhile isSpace (rev ?t)"
  have hd_u: "?u = [] \<or> \<not> isSpace (hd ?u)"
    by (metis hd_dropWhile)
  have hd_t: "?t = [] \<or> \<not> isSpace (hd ?t)"
    by (metis hd_dropWhile)
  have last_u: "?u = [] \<or> \<not> isSpace (last ?u)"
  proof (cases "?u = []")
    case True
    then show ?thesis by simp
  next
    case False
    obtain ys where ys: "rev ?t = ys @ ?u"
      by (metis takeWhile_dropWhile_id)
    with False have "last ?u = last (rev ?t)" by (metis last_appendR)
    moreover from False have "?t \<noteq> []"
      by (metis dropWhile.simps(1) rev.simps(1))
    ultimately have "last ?u = hd ?t" by (simp add: last_rev)
    with hd_t \<open>?t \<noteq> []\<close> show ?thesis by metis
  qed
  then have "rev ?u = [] \<or> \<not> isSpace (hd (rev ?u))"
    by (auto simp: hd_rev)
  then have a: "dropWhile isSpace (rev ?u) = rev ?u" by (rule dropWhile_id)
  from hd_u have b: "dropWhile isSpace ?u = ?u" by (rule dropWhile_id)
  show ?thesis by (simp add: trim_def a b)
qed

lemma saveNew_ok:
  assumes "c_name c \<noteq> []" "c_description c \<noteq> []" "c_email c \<noteq> []" "6 \<le> length (c_password c)"
    and "\<forall>d\<in>set (clubs s). c_name d \<noteq> c_name c \<and> c_email d \<noteq> c_email c"
  shows "saveNew L e c s = Inr (s\<lparr>clubs := clubs s @ [hashed L e c]\<rparr>)"
proof -
  from assms(5) have "find (\<lambda>d. c_name d = c_name c \<or> c_email d = c_email c) (clubs s) = None"
    by (auto simp: find_None_iff)
  with assms(1-4) show ?thesis by (simp add: saveNew_def hashed_def)
qed

lemma signupCreate_ok:
  assumes "castName name \<noteq> []" "description \<noteq> []" "castEmail email \<noteq> []" "6 \<le> length password"
    and "\<forall>d\<in>set (clubs s). c_name d \<noteq> castName name \<and> c_email d \<noteq> castEmail email"
  shows "signupCreate L e s name description email password =
     (if sendMailOk e then OtpSent email
      else ServerError ''Error during signup'' FailedToSendEmail,
      otpCreate e email (generateOTP (mathRandom e))
        (s\<lparr>nextId := Suc (nextId s),
           clubs := clubs s @ [hashed L e (newClub e (nextId s) name description email password)]\<rparr>))"
proof -
  let ?c = "newClub e (nextId s) name description email password"
  have "saveNew L e ?c (s\<lparr>nextId := Suc (nextId s)\<rparr>) =
        Inr (s\<lparr>nextId := Suc (nextId s), clubs := clubs s @ [hashed L e ?c]\<rparr>)"
    using assms by (subst saveNew_ok) (simp_all add: newClub_def)
  then show ?thesis
    by (simp add: signupCreate_def Let_def sendOTPEmail_def)
qed

lemma signupCreate_transport:
  "signupCreate L (e\<lparr>sendMailOk := b\<rparr>) s name description email password =
     (case saveNew L e (newClub e (nextId s) name description email password)
             (s\<lparr>nextId := Suc (nextId s)\<rparr>) of
        Inl err \<Rightarrow> (ServerError ''Error during signup'' err, s\<lparr>nextId := Suc (nextId s)\<rparr>)
      | Inr s2 \<Rightarrow>
          (if b then OtpSent email else ServerError ''Error during signup'' FailedToSendEmail,
           otpCreate e email (generateOTP (mathRandom e)) s2))"
  by (simp add: signupCreate_def Let_def sendOTPEmail_def saveNew_def newClub_def otpCreate_def
      split: sum.splits)

lemma env_transport: "\<not> sendMailOk e \<Longrightarrow> e\<lparr>sendMailOk := False\<rparr> = e"
  by simp

lemma saveNew_transport: "saveNew L (e\<lparr>sendMailOk := b\<rparr>) c s = saveNew L e c s"
  by (simp add: saveNew_def)

lemma saveNew_Inr:
  "saveNew L e c s = Inr s2 \<Longrightarrow> s2 = s\<lparr>clubs := clubs s @ [hashed L e c]\<rparr>"
  by (auto simp: saveNew_def hashed_def split: if_splits)

lemma signupCreate_sent:
  assumes "fst (signupCreate L (e\<lparr>sendMailOk := True\<rparr>) s name description email password) =
           OtpSent email"
  shows "signupCreate L (e\<lparr>sendMailOk := b\<rparr>) s name description email password =
     (if b then OtpSent email else ServerError ''Error during signup'' FailedToSendEmail,
      otpCreate e email (generateOTP (mathRandom e))
        (s\<lparr>nextId := Suc (nextId s),
           clubs := clubs s @ [hashed L e (newClub e (nextId s) name description email password)]\<rparr>))"
proof (cases "saveNew L e (newClub e (nextId s) name description email password)
                (s\<lparr>nextId := Suc (nextId s)\<rparr>)")
  case (Inl err)
  with assms show ?thesis by (simp add: signupCreate_transport)
next
  case (Inr s2)
  from saveNew_Inr [OF Inr] Inr show ?thesis
    by (simp add: signupCreate_transport)
qed

lemma find_snoc: "P x \<Longrightarrow> find P (xs @ [x]) \<noteq> None"
  by (induction xs) auto

lemma otpFindOne_created:
  "otpFindOne email code (otpCreate e email code s) \<noteq> None"
  by (simp add: otpFindOne_def otpCreate_def find_snoc)

lemma signupCreate_sent_props:
  assumes "fst (signupCreate L (e\<lparr>sendMailOk := True\<rparr>) s' name description email password) =
           OtpSent email"
  shows "signupCreate L (e\<lparr>sendMailOk := b\<rparr>) s' name description email password =
     (if b then OtpSent email else ServerError ''Error during signup'' FailedToSendEmail,
      snd (signupCreate L (e\<lparr>sendMailOk := True\<rparr>) s' name description email password)) \<and>
     otpFindOne email (generateOTP (mathRandom e))
       (snd (signupCreate L (e\<lparr>sendMailOk := True\<rparr>) s' name description email password)) \<noteq> None \<and>
     last (clubs (snd (signupCreate L (e\<lparr>sendMailOk := True\<rparr>) s' name description email password))) =
       hashed L e (newClub e (nextId s') name description email password)"
proof -
  note t = signupCreate_sent [OF assms, of True]
  note f = signupCreate_sent [OF assms, of b]
  have "clubs (snd (signupCreate L (e\<lparr>sendMailOk := True\<rparr>) s' name description email password)) =
      clubs s' @ [hashed L e (newClub e (nextId s') name description email password)]"
    unfolding t by (simp add: otpCreate_def)
  then show ?thesis
    unfolding f unfolding t by (simp add: otpFindOne_created)
qed

lemma signup_sent:
  assumes "fst (signup L (e\<lparr>sendMailOk := True\<rparr>) s name0 description0 email password) =
           OtpSent email"
  shows "signup L (e\<lparr>sendMailOk := b\<rparr>) s name0 description0 email password =
     (if b then OtpSent email else ServerError ''Error during signup'' FailedToSendEmail,
      snd (signup L (e\<lparr>sendMailOk := True\<rparr>) s name0 description0 email password)) \<and>
     otpFindOne email (generateOTP (mathRandom e))
       (snd (signup L (e\<lparr>sendMailOk := True\<rparr>) s name0 description0 email password)) \<noteq> None \<and>
     last (clubs (snd (signup L (e\<lparr>sendMailOk := True\<rparr>) s name0 description0 email password))) =
       hashed L e (newClub e (nextId s) (trim name0) (trim description0) email password)"
proof (cases "signupErrors L (trim name0) (trim description0) email password = []")
  case False
  with assms show ?thesis by (simp add: signup_def Let_def)
next
  case True
  show ?thesis
  proof (cases "findByEmailOrName email (trim name0) s")
    case None
    with True have eq: "\<And>e'. signup L e' s name0 description0 email password =
        signupCreate L e' s (trim name0) (trim description0) email password"
      by (simp add: signup_def Let_def)
    from assms have "fst (signupCreate L (e\<lparr>sendMailOk := True\<rparr>) s (trim name0)
        (trim description0) email password) = OtpSent email"
      by (simp add: eq)
    from signupCreate_sent_props [OF this, of b] show ?thesis by (simp add: eq)
  next
    case (Some old)
    show ?thesis
    proof (cases "c_verified old")
      case v: True
      with True Some assms show ?thesis by (simp add: signup_def Let_def)
    next
      case v: False
      let ?s' = "findByIdAndDelete (c_id old) s"
      from True Some v have eq: "\<And>e'. signup L e' s name0 description0 email password =
          signupCreate L e' ?s' (trim name0) (trim description0) email password"
        by (simp add: signup_def Let_def)
      have n: "nextId ?s' = nextId s" by (simp add: findByIdAndDelete_def)
      from assms have "fst (signupCreate L (e\<lparr>sendMailOk := True\<rparr>) ?s' (trim name0)
          (trim description0) email password) = OtpSent email"
        by (simp add: eq)
      from signupCreate_sent_props [OF this, of b] show ?thesis by (simp add: eq n)
    qed
  qed
qed

lemma reissue_transport:
  "reissue (e\<lparr>sendMailOk := b\<rparr>) s email okMsg errMsg =
     (if b then Done okMsg else ServerError errMsg FailedToSendEmail,
      otpCreate e email (generateOTP (mathRandom e)) (otpDeleteMany email s))"
  by (simp add: reissue_def Let_def sendOTPEmail_def otpCreate_def)

lemma reissue_otps:
  "filter (\<lambda>r. o_email r = email)
     (otps (otpCreate e email code (otpDeleteMany email s))) =
   [\<lparr>o_email = email, o_otp = code, o_createdAt = dateNow e\<rparr>]"
  by (simp add: otpCreate_def otpDeleteMany_def filter_empty_conv)

lemma resendOtp_sent:
  assumes "fst (resendOtp L (e\<lparr>sendMailOk := True\<rparr>) s email) = Done ''New OTP sent to your email''"
  shows "resendOtp L (e\<lparr>sendMailOk := b\<rparr>) s email =
     (if b then Done ''New OTP sent to your email''
      else ServerError ''Error resending OTP'' FailedToSendEmail,
      otpCreate e email (generateOTP (mathRandom e)) (otpDeleteMany email s))"
  using assms
  by (simp add: resendOtp_def Let_def reissue_transport split: if_splits option.splits)

lemma forgotPassword_sent:
  assumes "fst (forgotPassword L (e\<lparr>sendMailOk := True\<rparr>) s email) =
           Done ''Password reset OTP sent to your email''"
  shows "forgotPassword L (e\<lparr>sendMailOk := b\<rparr>) s email =
     (if b then Done ''Password reset OTP sent to your email''
      else ServerError ''Error sending reset OTP'' FailedToSendEmail,
      otpCreate e email (generateOTP (mathRandom e)) (otpDeleteMany email s))"
  using assms
  by (simp add: forgotPassword_def Let_def reissue_transport split: if_splits option.splits)

section \<open>Well-formed databases\<close>

lemma wellFormed_emptyDb: "wellFormed emptyDb"
  by (simp add: wellFormed_def emptyDb_def)

lemma wellFormed_otps: "wellFormed (s\<lparr>otps := xs\<rparr>) = wellFormed s"
  by (simp add: wellFormed_def)

lemma wellFormed_delete: "wellFormed s \<Longrightarrow> wellFormed (findByIdAndDelete i s)"
  by (auto simp: wellFormed_def findByIdAndDelete_def list_all_iff distinct_map_filter)

lemma map_field_update:
  "(\<And>d. f (g d) = f d) \<Longrightarrow> map f (map (\<lambda>d. if P d then g d else d) xs) = map f xs"
  by (induction xs) auto

lemma list_all_ids: "list_all (\<lambda>c. c_id c < n) xs = list_all (\<lambda>i. i < n) (map c_id xs)"
  by (induction xs) auto

lemma wellFormed_cong:
  assumes "map c_id (clubs s') = map c_id (clubs s)"
    and "map c_email (clubs s') = map c_email (clubs s)"
    and "map c_name (clubs s') = map c_name (clubs s)"
    and "nextId s' = nextId s"
  shows "wellFormed s' = wellFormed s"
  unfolding wellFormed_def list_all_ids assms ..

lemma wellFormed_saveVerified: "wellFormed s \<Longrightarrow> wellFormed (saveVerified c s)"
proof -
  have "wellFormed (saveVerified c s) = wellFormed s"
    unfolding saveVerified_def
    by (rule wellFormed_cong) (simp_all add: map_field_update del: map_map)
  then show "wellFormed s \<Longrightarrow> wellFormed (saveVerified c s)" by simp
qed

lemma wellFormed_savePassword: "wellFormed s \<Longrightarrow> wellFormed (savePassword L e c p s)"
proof (cases "p = c_password c")
  case True
  then show "wellFormed s \<Longrightarrow> wellFormed (savePassword L e c p s)"
    by (simp add: savePassword_def)
next
  case False
  have "wellFormed (s\<lparr>clubs := map (\<lambda>d. if c_id d = c_id c
                                then d\<lparr>c_password := bcryptHash L p (genSalt e)\<rparr>
                                else d) (clubs s)\<rparr>) = wellFormed s"
    by (rule wellFormed_cong) (simp_all add: map_field_update del: map_map)
  with False show "wellFormed s \<Longrightarrow> wellFormed (savePassword L e c p s)"
    by (simp add: savePassword_def)
qed

lemma wellFormed_signupCreate:
  assumes "wellFormed s"
  shows "wellFormed (snd (signupCreate L e s name description email password))"
proof -
  let ?c = "newClub e (nextId s) name description email password"
  let ?s1 = "s\<lparr>nextId := Suc (nextId s)\<rparr>"
  from assms have s1: "wellFormed ?s1"
    by (auto simp: wellFormed_def list_all_iff)
  show ?thesis
  proof (cases "saveNew L e ?c ?s1")
    case (Inl err)
    with s1 show ?thesis by (simp add: signupCreate_def Let_def)
  next
    case (Inr s2)
    then have free: "find (\<lambda>d. c_name d = c_name ?c \<or> c_email d = c_email ?c) (clubs s) = None"
      by (simp add: saveNew_def split: if_splits)
    from Inr have s2: "s2 = ?s1\<lparr>clubs := clubs s @ [hashed L e ?c]\<rparr>"
      by (auto simp: saveNew_def hashed_def split: if_splits)
    from free have "\<forall>d\<in>set (clubs s). c_name d \<noteq> c_name ?c \<and> c_email d \<noteq> c_email ?c"
      by (auto simp: find_None_iff)
    moreover from assms have "\<forall>d\<in>set (clubs s). c_id d \<noteq> nextId s"
      by (auto simp: wellFormed_def list_all_iff)
    ultimately have "wellFormed s2"
      using assms unfolding s2
      by (auto simp: wellFormed_def list_all_iff hashed_def newClub_def)
    then have "wellFormed (otpCreate e email (generateOTP (mathRandom e)) s2)"
      by (simp add: otpCreate_def wellFormed_otps)
    with Inr show ?thesis
      by (simp add: signupCreate_def Let_def split: sum.splits)
  qed
qed

lemma wellFormed_signup:
  "wellFormed s \<Longrightarrow> wellFormed (snd (signup L e s name0 description0 email password))"
  by (simp add: signup_def Let_def wellFormed_signupCreate wellFormed_delete
      split: option.splits)

lemma wellFormed_verifyOtp: "wellFormed s \<Longrightarrow> wellFormed (snd (verifyOtp L e s email otp))"
  by (simp add: verifyOtp_def Let_def otpDeleteOne_def wellFormed_otps wellFormed_saveVerified
      split: option.splits)

lemma wellFormed_reissue: "wellFormed s \<Longrightarrow> wellFormed (snd (reissue e s email okMsg errMsg))"
  by (simp add: reissue_def Let_def otpCreate_def otpDeleteMany_def wellFormed_otps
      split: sum.splits)

lemma wellFormed_resendOtp: "wellFormed s \<Longrightarrow> wellFormed (snd (resendOtp L e s email))"
  by (simp add: resendOtp_def Let_def wellFormed_reissue split: option.splits)

lemma wellFormed_forgotPassword: "wellFormed s \<Longrightarrow> wellFormed (snd (forgotPassword L e s email))"
  by (simp add: forgotPassword_def Let_def wellFormed_reissue split: option.splits)

lemma wellFormed_login: "snd (login L e s email password) = s"
  by (simp add: login_def Let_def split: option.splits)

lemma wellFormed_resetPassword:
  "wellFormed s \<Longrightarrow> wellFormed (snd (resetPassword L e s email otp newPassword))"
  by (simp add: resetPassword_def Let_def otpDeleteOne_def wellFormed_otps
      wellFormed_savePassword split: option.splits)

lemma wellFormed_handle: "wellFormed s \<Longrightarrow> wellFormed (snd (handle L e s rq))"
  by (cases rq)
    (simp_all add: wellFormed_signup wellFormed_verifyOtp wellFormed_resendOtp wellFormed_login
      wellFormed_forgotPassword wellFormed_resetPassword)

lemma wellFormed_run: "wellFormed s \<Longrightarrow> wellFormed (run L s ts)"
proof (induction ts arbitrary: s)
  case Nil
  then show ?case by simp
next
  case (Cons t ts)
  obtain e rq where t: "t = (e, rq)" by (cases t)
  from Cons.prems have "wellFormed (snd (handle L e s rq))" by (rule wellFormed_handle)
  then have "wellFormed (run L (snd (handle L e s rq)) ts)" by (rule Cons.IH)
  with t show ?case by simp
qed

lemma reachable_wellFormed: "wellFormed (run L emptyDb ts)"
  by (rule wellFormed_run) (rule wellFormed_emptyDb)

text \<open>Every database reached from the empty one by requests is well formed.\<close>

lemma reachable_ids_below: "\<forall>c\<in>set (clubs (run L emptyDb ts)). c_id c < nextId (run L emptyDb ts)"
  using reachable_wellFormed [of L ts] by (simp add: wellFormed_def list_all_iff)

lemma reachable_emails_distinct: "distinct (map c_email (clubs (run L emptyDb ts)))"
  using reachable_wellFormed [of L ts] by (simp add: wellFormed_def)

section \<open>Supporting facts on the OTP store\<close>

lemma removeFirst_single:
  "length (filter P xs) \<le> 1 \<Longrightarrow> filter P (removeFirst P xs) = []"
proof (induction xs)
  case Nil
  then show ?case by simp
next
  case (Cons a xs)
  show ?case
  proof (cases "P a")
    case True
    with Cons.prems have "length (filter P xs) = 0" by simp
    with True show ?thesis by simp
  next
    case False
    with Cons.prems have "length (filter P xs) \<le> 1" by simp
    then have "filter P (removeFirst P xs) = []" by (rule Cons.IH)
    with False show ?thesis by simp
  qed
qed

lemma find_None_filter: "find P xs = None \<longleftrightarrow> filter P xs = []"
  by (auto simp: find_None_iff filter_empty_conv)

text \<open>
  When at most one stored record carries the pair, a successful \<open>verifyOtp\<close> or
  \<open>resetPassword\<close> leaves none, and the next attempt with the pair is rejected.
\<close>

lemma consume_single_use:
  assumes "length (filter (\<lambda>r. o_email r = email \<and> o_otp r = otp) (otps s)) \<le> 1"
  shows "(status (fst (verifyOtp L e s email otp)) = 200 \<longrightarrow>
            fst (verifyOtp L e' (snd (verifyOtp L e s email otp)) email otp) = InvalidOrExpired) \<and>
         (status (fst (resetPassword L e s email otp newPassword)) = 200 \<longrightarrow>
            fst (verifyOtp L e' (snd (resetPassword L e s email otp newPassword)) email otp) =
              InvalidOrExpired)"
proof -
  from assms have gone: "\<And>s'. otps s' = otps s \<Longrightarrow> otpFindOne email otp (otpDeleteOne email otp s') = None"
    by (simp add: otpFindOne_def otpDeleteOne_def find_None_filter removeFirst_single)
  have a: "otps (saveVerified c s) = otps s" for c by (simp add: saveVerified_def)
  have b: "otps (savePassword L e c newPassword s) = otps s" for c
    by (simp add: savePassword_def)
  show ?thesis
    by (auto simp: verifyOtp_def resetPassword_def Let_def gone [OF a] gone [OF b]
        resetErrors_def split: option.splits if_splits)
qed

text \<open>A verified first match stops the signup with nothing changed.\<close>

lemma signup_verified_match:
  "signupErrors L (trim name0) (trim description0) email password = [] \<Longrightarrow>
   findByEmailOrName email (trim name0) s = Some c \<Longrightarrow> c_verified c \<Longrightarrow>
   signup L e s name0 description0 email password = (DuplicateActive, s)"
  by (simp add: signup_def Let_def)

section \<open>The stored OTP records\<close>

text \<open>
  Every request keeps the OTP store in the form above, so a pair that matches a stored
  record passes the validation of \<open>verifyOtp\<close>.
\<close>

lemma generateOTP_length: "envOk e \<Longrightarrow> length (generateOTP (mathRandom e)) = 6"
  using generateOTP_six [of "mathRandom e"] by (simp add: envOk_def)

lemma list_all_removeFirst: "list_all Q xs \<Longrightarrow> list_all Q (removeFirst P xs)"
  by (induction xs) auto

lemma otpStoreOk_clubs: "otpStoreOk L (s\<lparr>clubs := cs\<rparr>) = otpStoreOk L s"
  by (simp add: otpStoreOk_def)

lemma otpStoreOk_nextId: "otpStoreOk L (s\<lparr>nextId := n\<rparr>) = otpStoreOk L s"
  by (simp add: otpStoreOk_def)

lemma otpStoreOk_create:
  "otpStoreOk L s \<Longrightarrow> isEmail L email \<Longrightarrow> envOk e \<Longrightarrow>
   otpStoreOk L (otpCreate e email (generateOTP (mathRandom e)) s)"
  by (simp add: otpStoreOk_def otpCreate_def generateOTP_length)

lemma otpStoreOk_deleteOne: "otpStoreOk L s \<Longrightarrow> otpStoreOk L (otpDeleteOne email otp s)"
  by (simp add: otpStoreOk_def otpDeleteOne_def list_all_removeFirst)

lemma otpStoreOk_deleteMany: "otpStoreOk L s \<Longrightarrow> otpStoreOk L (otpDeleteMany email s)"
  by (simp add: otpStoreOk_def otpDeleteMany_def list_all_iff)

lemma otpStoreOk_signupCreate:
  assumes "otpStoreOk L s" "isEmail L email" "envOk e"
  shows "otpStoreOk L (snd (signupCreate L e s name description email password))"
proof (cases "saveNew L e (newClub e (nextId s) name description email password)
                (s\<lparr>nextId := Suc (nextId s)\<rparr>)")
  case (Inl err)
  with assms show ?thesis by (simp add: signupCreate_def Let_def otpStoreOk_nextId)
next
  case (Inr s2)
  then have "s2 = s\<lparr>nextId := Suc (nextId s),
      clubs := clubs s @ [hashed L e (newClub e (nextId s) name description email password)]\<rparr>"
    by (auto dest: saveNew_Inr)
  with assms have "otpStoreOk L s2" by (simp add: otpStoreOk_def)
  with assms have "otpStoreOk L (otpCreate e email (generateOTP (mathRandom e)) s2)"
    by (simp add: otpStoreOk_create)
  with Inr show ?thesis by (simp add: signupCreate_def Let_def split: sum.splits)
qed

lemma otpStoreOk_signup:
  assumes "otpStoreOk L s" "envOk e"
  shows "otpStoreOk L (snd (signup L e s name0 description0 email password))"
proof (cases "signupErrors L (trim name0) (trim description0) email password = []")
  case False
  with assms show ?thesis by (simp add: signup_def Let_def)
next
  case True
  then have em: "isEmail L email" by (simp add: signupErrors_Nil_iff)
  from assms have del: "otpStoreOk L (findByIdAndDelete i s)" for i
    by (simp add: findByIdAndDelete_def otpStoreOk_clubs)
  from True assms em del show ?thesis
    by (simp add: signup_def Let_def otpStoreOk_signupCreate split: option.splits)
qed

lemma otpStoreOk_verifyOtp:
  "otpStoreOk L s \<Longrightarrow> otpStoreOk L (snd (verifyOtp L e s email otp))"
  by (simp add: verifyOtp_def Let_def otpStoreOk_deleteOne saveVerified_def otpStoreOk_clubs
      split: option.splits)

lemma otpStoreOk_savePassword: "otpStoreOk L (savePassword L e c p s) = otpStoreOk L s"
  by (simp add: savePassword_def otpStoreOk_clubs)

lemma otpStoreOk_resetPassword:
  "otpStoreOk L s \<Longrightarrow> otpStoreOk L (snd (resetPassword L e s email otp newPassword))"
  by (simp add: resetPassword_def Let_def otpStoreOk_deleteOne otpStoreOk_savePassword
      split: option.splits)

lemma otpStoreOk_reissue:
  "otpStoreOk L s \<Longrightarrow> isEmail L email \<Longrightarrow> envOk e \<Longrightarrow>
   otpStoreOk L (snd (reissue e s email okMsg errMsg))"
  by (simp add: reissue_def Let_def otpStoreOk_create otpStoreOk_deleteMany split: sum.splits)

lemma otpStoreOk_resendOtp:
  "otpStoreOk L s \<Longrightarrow> envOk e \<Longrightarrow> otpStoreOk L (snd (resendOtp L e s email))"
  by (simp add: resendOtp_def Let_def otpStoreOk_reissue emailErrors_Nil_iff
      split: option.splits)

lemma otpStoreOk_forgotPassword:
  "otpStoreOk L s \<Longrightarrow> envOk e \<Longrightarrow> otpStoreOk L (snd (forgotPassword L e s email))"
  by (simp add: forgotPassword_def Let_def otpStoreOk_reissue emailErrors_Nil_iff
      split: option.splits)

lemma otpStoreOk_handle:
  "otpStoreOk L s \<Longrightarrow> envOk e \<Longrightarrow> otpStoreOk L (snd (handle L e s rq))"
  by (cases rq)
    (simp_all add: otpStoreOk_signup otpStoreOk_verifyOtp otpStoreOk_resendOtp wellFormed_login
      otpStoreOk_forgotPassword otpStoreOk_resetPassword)

lemma otpStoreOk_run:
  "otpStoreOk L s \<Longrightarrow> list_all (\<lambda>t. envOk (fst t)) ts \<Longrightarrow> otpStoreOk L (run L s ts)"
proof (induction ts arbitrary: s)
  case Nil
  then show ?case by simp
next
  case (Cons t ts)
  obtain e rq where t: "t = (e, rq)" by (cases t)
  with Cons.prems have "otpStoreOk L (snd (handle L e s rq))" by (simp add: otpStoreOk_handle)
  moreover from Cons.prems have "list_all (\<lambda>t. envOk (fst t)) ts" by simp
  ultimately have "otpStoreOk L (run L (snd (handle L e s rq)) ts)" by (rule Cons.IH)
  with t show ?case by simp
qed

lemma stored_otp_passes_validation:
  "otpStoreOk L s \<Longrightarrow> otpFindOne email otp s = Some r \<Longrightarrow> otpErrors L email otp = []"
  by (auto simp: otpStoreOk_def otpFindOne_def otpErrors_def find_Some_iff list_all_iff)

section \<open>Where a delivery failure comes from\<close>

text \<open>
  A response carrying the delivery failure is given only by a call that reached the
  dispatch with a failing transport: with a delivering transport the same call succeeds.
\<close>

lemma saveNew_no_delivery_error: "saveNew L e c s \<noteq> Inl FailedToSendEmail"
  by (simp add: saveNew_def)

lemma signupCreate_delivery_error:
  assumes "fst (signupCreate L e s name description email password) = ServerError msg FailedToSendEmail"
  shows "\<not> sendMailOk e \<and>
         fst (signupCreate L (e\<lparr>sendMailOk := True\<rparr>) s name description email password) =
           OtpSent email"
proof -
  have form: "signupCreate L e s name description email password =
     (case saveNew L e (newClub e (nextId s) name description email password)
             (s\<lparr>nextId := Suc (nextId s)\<rparr>) of
        Inl err \<Rightarrow> (ServerError ''Error during signup'' err, s\<lparr>nextId := Suc (nextId s)\<rparr>)
      | Inr s2 \<Rightarrow>
          (if sendMailOk e then OtpSent email
           else ServerError ''Error during signup'' FailedToSendEmail,
           otpCreate e email (generateOTP (mathRandom e)) s2))"
    by (simp add: signupCreate_def Let_def sendOTPEmail_def split: sum.splits)
  show ?thesis
  proof (cases "saveNew L e (newClub e (nextId s) name description email password)
                  (s\<lparr>nextId := Suc (nextId s)\<rparr>)")
    case (Inl err)
    then have "err \<noteq> FailedToSendEmail" using saveNew_no_delivery_error by metis
    with Inl assms show ?thesis by (simp add: form)
  next
    case (Inr s2)
    with assms have "\<not> sendMailOk e" by (simp add: form split: if_splits)
    with Inr show ?thesis by (simp add: signupCreate_transport)
  qed
qed

lemma signup_delivery_error:
  assumes "fst (signup L e s name0 description0 email password) = ServerError msg FailedToSendEmail"
  shows "\<not> sendMailOk e \<and>
         fst (signup L (e\<lparr>sendMailOk := True\<rparr>) s name0 description0 email password) =
           OtpSent email"
proof (cases "signupErrors L (trim name0) (trim description0) email password = []")
  case False
  with assms show ?thesis by (simp add: signup_def Let_def)
next
  case True
  show ?thesis
  proof (cases "findByEmailOrName email (trim name0) s")
    case None
    with True have eq: "\<And>e'. signup L e' s name0 description0 email password =
        signupCreate L e' s (trim name0) (trim description0) email password"
      by (simp add: signup_def Let_def)
    from assms show ?thesis unfolding eq by (rule signupCreate_delivery_error)
  next
    case (Some old)
    show ?thesis
    proof (cases "c_verified old")
      case v: True
      with True Some assms show ?thesis by (simp add: signup_def Let_def)
    next
      case v: False
      with True Some have eq: "\<And>e'. signup L e' s name0 description0 email password =
          signupCreate L e' (findByIdAndDelete (c_id old) s) (trim name0) (trim description0)
            email password"
        by (simp add: signup_def Let_def)
      from assms show ?thesis unfolding eq by (rule signupCreate_delivery_error)
    qed
  qed
qed

lemma reissue_delivery_error:
  "fst (reissue e s email okMsg errMsg) = ServerError msg FailedToSendEmail \<Longrightarrow>
   \<not> sendMailOk e \<and> fst (reissue (e\<lparr>sendMailOk := True\<rparr>) s email okMsg errMsg) = Done okMsg"
  by (simp add: reissue_def Let_def sendOTPEmail_def split: if_splits)

lemma resendOtp_delivery_error:
  "fst (resendOtp L e s email) = ServerError msg FailedToSendEmail \<Longrightarrow>
   \<not> sendMailOk e \<and>
   fst (resendOtp L (e\<lparr>sendMailOk := True\<rparr>) s email) = Done ''New OTP sent to your email''"
  by (simp add: resendOtp_def Let_def reissue_delivery_error split: if_splits option.splits)

lemma forgotPassword_delivery_error:
  "fst (forgotPassword L e s email) = ServerError msg FailedToSendEmail \<Longrightarrow>
   \<not> sendMailOk e \<and>
   fst (forgotPassword L (e\<lparr>sendMailOk := True\<rparr>) s email) =
     Done ''Password reset OTP sent to your email''"
  by (simp add: forgotPassword_def Let_def reissue_delivery_error split: if_splits option.splits)

section \<open>Running the concrete requests\<close>

lemma castEmail_samples:
  "castEmail ''a@x.com'' = ''a@x.com''" "castEmail ''b@x.com'' = ''b@x.com''"
  "castEmail ''c@x.com'' = ''c@x.com''"
  by (simp_all add: castEmail_def trim_def isSpace_def toLowerCase_def lowerChar_def)

lemma trim_samples:
  "trim ''Chess Club'' = ''Chess Club''" "trim ''We play chess'' = ''We play chess''"
  "trim ''Go Club'' = ''Go Club''" "trim ''We play go'' = ''We play go''"
  by (simp_all add: trim_def isSpace_def)

lemmas sample_simps = generateOTP_zero generateOTP_half castEmail_samples trim_samples
  castName_def sampleLib_def sampleEnv_def emptyDb_def chessClub_def goClub_def otpFor_def
  signupChess_def signupGo_def Let_def

lemmas signup_defs = signup_def signupCreate_def signupErrors_def findByEmailOrName_def
  findByIdAndDelete_def newClub_def saveNew_def otpCreate_def sendOTPEmail_def

lemmas verify_defs = verifyOtp_def otpErrors_def otpFindOne_def findByEmail_def
  saveVerified_def otpDeleteOne_def jwtSign_def viewOf_def

lemmas reissue_defs = resendOtp_def forgotPassword_def emailErrors_def findByEmailVerified_def
  reissue_def otpDeleteMany_def otpCreate_def sendOTPEmail_def

lemmas reset_defs = resetPassword_def resetErrors_def otpErrors_def otpFindOne_def
  findByEmailVerified_def savePassword_def otpDeleteOne_def

lemma signupChess_first:
  "signup sampleLib (sampleEnv 0 0 ok) emptyDb ''Chess Club'' ''We play chess'' ''a@x.com''
     ''secret1'' =
   (if ok then OtpSent ''a@x.com'' else ServerError ''Error during signup'' FailedToSendEmail,
    \<lparr>clubs = [chessClub 0 0 False], otps = [otpFor ''a@x.com'' ''100000'' 0], nextId = 1\<rparr>)"
  by (simp add: signup_defs sample_simps)

lemma dbChess_value:
  "dbChess = \<lparr>clubs = [chessClub 0 0 False], otps = [otpFor ''a@x.com'' ''100000'' 0], nextId = 1\<rparr>"
  by (simp only: run.simps handle.simps snd_conv if_True dbChess_def signupChess_def signupChess_first)

lemma signupChess_again:
  "signup sampleLib (sampleEnv 1000 r True)
     \<lparr>clubs = [chessClub 0 0 False], otps = [otpFor ''a@x.com'' ''100000'' 0], nextId = 1\<rparr>
     ''Chess Club'' ''We play chess'' ''a@x.com'' ''secret1'' =
   (OtpSent ''a@x.com'',
    \<lparr>clubs = [chessClub 1 1000 False],
     otps = [otpFor ''a@x.com'' ''100000'' 0, otpFor ''a@x.com'' (generateOTP r) 1000],
     nextId = 2\<rparr>)"
  by (simp add: signup_defs sample_simps)

lemma dbChessTwice_value:
  "dbChessTwice =
     \<lparr>clubs = [chessClub 1 1000 False],
      otps = [otpFor ''a@x.com'' ''100000'' 0, otpFor ''a@x.com'' ''550000'' 1000],
      nextId = 2\<rparr>"
  by (simp only: run.simps handle.simps snd_conv if_True dbChessTwice_def signupChess_def signupChess_first signupChess_again generateOTP_half)

lemma dbChessSameCode_value:
  "dbChessSameCode =
     \<lparr>clubs = [chessClub 1 1000 False],
      otps = [otpFor ''a@x.com'' ''100000'' 0, otpFor ''a@x.com'' ''100000'' 1000],
      nextId = 2\<rparr>"
  by (simp only: run.simps handle.simps snd_conv if_True dbChessSameCode_def signupChess_def signupChess_first signupChess_again generateOTP_zero)

lemma signupGo_second:
  "signup sampleLib (sampleEnv 1000 (1 / 2) True)
     \<lparr>clubs = [chessClub 0 0 False], otps = [otpFor ''a@x.com'' ''100000'' 0], nextId = 1\<rparr>
     ''Go Club'' ''We play go'' ''b@x.com'' ''secret2'' =
   (OtpSent ''b@x.com'',
    \<lparr>clubs = [chessClub 0 0 False, goClub 1 1000 False],
     otps = [otpFor ''a@x.com'' ''100000'' 0, otpFor ''b@x.com'' ''550000'' 1000],
     nextId = 2\<rparr>)"
  by (simp add: signup_defs sample_simps)

lemma verifyGo_second:
  "verifyOtp sampleLib (sampleEnv 2000 0 True)
     \<lparr>clubs = [chessClub 0 0 False, goClub 1 1000 False],
      otps = [otpFor ''a@x.com'' ''100000'' 0, otpFor ''b@x.com'' ''550000'' 1000],
      nextId = 2\<rparr> ''b@x.com'' ''550000'' =
   (Authenticated ''Email verified successfully'' (jwtSign 1) (viewOf (goClub 1 1000 False)),
    \<lparr>clubs = [chessClub 0 0 False, goClub 1 1000 True],
     otps = [otpFor ''a@x.com'' ''100000'' 0], nextId = 2\<rparr>)"
  by (simp add: verify_defs sample_simps)

lemma dbChessGo_value:
  "dbChessGo =
     \<lparr>clubs = [chessClub 0 0 False, goClub 1 1000 True],
      otps = [otpFor ''a@x.com'' ''100000'' 0], nextId = 2\<rparr>"
  by (simp only: run.simps handle.simps snd_conv if_True dbChessGo_def signupChess_def signupGo_def signupChess_first signupGo_second verifyGo_second)

lemma dbTwoUnverified_value:
  "dbTwoUnverified =
     \<lparr>clubs = [chessClub 0 0 False, goClub 1 1000 False],
      otps = [otpFor ''a@x.com'' ''100000'' 0, otpFor ''b@x.com'' ''550000'' 1000],
      nextId = 2\<rparr>"
  by (simp only: run.simps handle.simps snd_conv if_True dbTwoUnverified_def signupChess_def signupGo_def signupChess_first signupGo_second)

lemma signupGo_first:
  "signup sampleLib (sampleEnv 0 (1 / 2) True) emptyDb ''Go Club'' ''We play go'' ''b@x.com''
     ''secret2'' =
   (OtpSent ''b@x.com'',
    \<lparr>clubs = [goClub 0 0 False], otps = [otpFor ''b@x.com'' ''550000'' 0], nextId = 1\<rparr>)"
  by (simp add: signup_defs sample_simps)

lemma verifyGo_first:
  "verifyOtp sampleLib (sampleEnv 1000 0 True)
     \<lparr>clubs = [goClub 0 0 False], otps = [otpFor ''b@x.com'' ''550000'' 0], nextId = 1\<rparr>
     ''b@x.com'' ''550000'' =
   (Authenticated ''Email verified successfully'' (jwtSign 0) (viewOf (goClub 0 0 False)),
    \<lparr>clubs = [goClub 0 0 True], otps = [], nextId = 1\<rparr>)"
  by (simp add: verify_defs sample_simps)

lemma signupChess_third:
  "signup sampleLib (sampleEnv 2000 0 True)
     \<lparr>clubs = [goClub 0 0 True], otps = [], nextId = 1\<rparr>
     ''Chess Club'' ''We play chess'' ''a@x.com'' ''secret1'' =
   (OtpSent ''a@x.com'',
    \<lparr>clubs = [goClub 0 0 True, chessClub 1 2000 False],
     otps = [otpFor ''a@x.com'' ''100000'' 2000], nextId = 2\<rparr>)"
  by (simp add: signup_defs sample_simps)

lemma dbGoChess_value:
  "dbGoChess =
     \<lparr>clubs = [goClub 0 0 True, chessClub 1 2000 False],
      otps = [otpFor ''a@x.com'' ''100000'' 2000], nextId = 2\<rparr>"
  by (simp only: run.simps handle.simps snd_conv if_True dbGoChess_def signupChess_def signupGo_def signupGo_first verifyGo_first signupChess_third)

lemma forgotGo_third:
  "forgotPassword sampleLib (sampleEnv 2000 0 ok)
     \<lparr>clubs = [goClub 0 0 True], otps = [], nextId = 1\<rparr> ''b@x.com'' =
   (if ok then Done ''Password reset OTP sent to your email''
    else ServerError ''Error sending reset OTP'' FailedToSendEmail,
    \<lparr>clubs = [goClub 0 0 True], otps = [otpFor ''b@x.com'' ''100000'' 2000], nextId = 1\<rparr>)"
  by (simp add: reissue_defs sample_simps)

lemma dbGoForgot_value:
  "dbGoForgot =
     \<lparr>clubs = [goClub 0 0 True], otps = [otpFor ''b@x.com'' ''100000'' 2000], nextId = 1\<rparr>"
  by (simp only: run.simps handle.simps snd_conv if_True dbGoForgot_def signupGo_def signupGo_first verifyGo_first forgotGo_third)

lemma signupOther_second:
  "signup sampleLib (sampleEnv 1000 (1 / 2) True)
     \<lparr>clubs = [chessClub 0 0 False], otps = [otpFor ''a@x.com'' ''100000'' 0], nextId = 1\<rparr>
     ''Chess Club'' ''We play chess'' ''c@x.com'' ''secret1'' =
   (OtpSent ''c@x.com'',
    \<lparr>clubs = [(chessClub 1 1000 False)\<lparr>c_email := ''c@x.com''\<rparr>],
     otps = [otpFor ''a@x.com'' ''100000'' 0, otpFor ''c@x.com'' ''550000'' 1000],
     nextId = 2\<rparr>)"
  by (simp add: signup_defs sample_simps)

lemma dbOrphan_value:
  "dbOrphan =
     \<lparr>clubs = [(chessClub 1 1000 False)\<lparr>c_email := ''c@x.com''\<rparr>],
      otps = [otpFor ''a@x.com'' ''100000'' 0, otpFor ''c@x.com'' ''550000'' 1000],
      nextId = 2\<rparr>"
  by (simp only: run.simps handle.simps snd_conv if_True dbOrphan_def signupChess_def signupChess_first signupOther_second)

lemmas query_defs = findByEmailOrName_def findByEmail_def findByEmailVerified_def findById_def
  otpFindOne_def

lemma resendChess_second:
  "resendOtp sampleLib (sampleEnv 1000 (1 / 2) ok)
     \<lparr>clubs = [chessClub 0 0 False], otps = [otpFor ''a@x.com'' ''100000'' 0], nextId = 1\<rparr>
     ''a@x.com'' =
   (if ok then Done ''New OTP sent to your email''
    else ServerError ''Error resending OTP'' FailedToSendEmail,
    \<lparr>clubs = [chessClub 0 0 False], otps = [otpFor ''a@x.com'' ''550000'' 1000], nextId = 1\<rparr>)"
  by (simp add: reissue_defs sample_simps)

section \<open>Claims on the routes\<close>

subsection \<open>C1: one valid OTP per email\<close>

text \<open>
  Claim C1 asks that at most one valid OTP record exists per email after any sequence of
  requests, each issuing route deleting the earlier records first. \<open>resendOtp\<close> and
  \<open>forgotPassword\<close> do (\<open>reissue_otps\<close>); \<open>signup\<close> creates the record without
  deleting. Here the code is run on two signups with the same email, the first account
  still unverified: both records are in the store afterwards and each of the two codes
  is accepted by \<open>verifyOtp\<close>.
\<close>

theorem signup_leaves_earlier_otp_valid:
  "filter (\<lambda>r. o_email r = ''a@x.com'') (otps dbChessTwice) =
     [otpFor ''a@x.com'' ''100000'' 0, otpFor ''a@x.com'' ''550000'' 1000] \<and>
   status (fst (verifyOtp sampleLib (sampleEnv 2000 0 True) dbChessTwice ''a@x.com'' ''100000''))
     = 200 \<and>
   status (fst (verifyOtp sampleLib (sampleEnv 2000 0 True) dbChessTwice ''a@x.com'' ''550000''))
     = 200"
  by (simp add: dbChessTwice_value verify_defs sample_simps)

subsection \<open>C2: expiry\<close>

text \<open>
  Claim C2, as the code has it. For a request that passes validation, \<open>verifyOtp\<close> and
  \<open>resetPassword\<close> answer \<open>InvalidOrExpired\<close> exactly when the store holds no record with
  the submitted email and code. Neither route reads the clock or the creation time of a
  record: the response is the same for every clock value and for every choice of
  creation times of the stored records. A record older than ten minutes is rejected only
  once the store no longer holds it.
\<close>

theorem consume_ignores_age:
  "(otpErrors L email otp = [] \<longrightarrow>
      (fst (verifyOtp L e s email otp) = InvalidOrExpired \<longleftrightarrow> otpFindOne email otp s = None)) \<and>
   (resetErrors L email otp newPassword = [] \<longrightarrow>
      (fst (resetPassword L e s email otp newPassword) = InvalidOrExpired \<longleftrightarrow>
       otpFindOne email otp s = None)) \<and>
   fst (verifyOtp L e' (redate f s) email otp) = fst (verifyOtp L e s email otp) \<and>
   fst (resetPassword L e' (redate f s) email otp newPassword) =
     fst (resetPassword L e s email otp newPassword)"
  using verifyOtp_absent_iff [of L email otp e s]
    resetPassword_absent_iff [of L email otp newPassword e s]
    verifyOtp_redate [of L e' f s email otp e]
    resetPassword_redate [of L e' f s email otp newPassword e]
  by simp

text \<open>
  A code that no record carries is rejected by both routes.
\<close>

theorem consume_ignores_age_witness:
  "otpErrors sampleLib ''a@x.com'' ''999999'' = [] \<and>
   resetErrors sampleLib ''a@x.com'' ''999999'' ''secret9'' = [] \<and>
   otpFindOne ''a@x.com'' ''999999'' dbChess = None \<and>
   fst (verifyOtp sampleLib (sampleEnv 1000 0 True) dbChess ''a@x.com'' ''999999'') =
     InvalidOrExpired \<and>
   fst (resetPassword sampleLib (sampleEnv 1000 0 True) dbChess ''a@x.com'' ''999999''
     ''secret9'') = InvalidOrExpired"
  using consume_ignores_age [of sampleLib "''a@x.com''" "''999999''" "sampleEnv 1000 0 True"
      dbChess "''secret9''"]
  by (simp add: dbChess_value otpErrors_def resetErrors_def otpFindOne_def sample_simps)

text \<open>
  Claim C2 as stated fails. The record of \<open>dbChess\<close> was created at time 0 and
  \<open>verifyOtp\<close> runs 660000 ms (eleven minutes) later; the record of \<open>dbGoForgot\<close> was
  created at time 2000 and \<open>resetPassword\<close> runs eleven minutes later. Both records are
  still in the store, and both requests succeed with status 200.
\<close>

theorem old_otp_consumed_counterexample:
  "otps dbChess = [otpFor ''a@x.com'' ''100000'' 0] \<and>
   o_createdAt (otpFor ''a@x.com'' ''100000'' 0) + 600000 < dateNow (sampleEnv 660000 0 True) \<and>
   status (fst (verifyOtp sampleLib (sampleEnv 660000 0 True) dbChess ''a@x.com'' ''100000''))
     = 200 \<and>
   otps dbGoForgot = [otpFor ''b@x.com'' ''100000'' 2000] \<and>
   o_createdAt (otpFor ''b@x.com'' ''100000'' 2000) + 600000 < dateNow (sampleEnv 662000 0 True) \<and>
   status (fst (resetPassword sampleLib (sampleEnv 662000 0 True) dbGoForgot ''b@x.com''
     ''100000'' ''secret9'')) = 200"
  by (simp add: dbChess_value dbGoForgot_value verify_defs reset_defs sample_simps)

subsection \<open>C4: single use\<close>

text \<open>
  Claim C4 asks that after one successful consumption of an (email, code) pair every
  later attempt with the pair fails. \<open>otpDeleteOne\<close> removes one record, which suffices
  when at most one record carries the pair (\<open>consume_single_use\<close>). Two signups with the
  same email that draw the same code leave two such records, since \<open>signup\<close> does not
  delete the earlier one; here \<open>verifyOtp\<close> is run twice on that state with the same pair,
  and succeeds twice.
\<close>

theorem verifyOtp_same_code_twice:
  "fst (verifyOtp sampleLib (sampleEnv 2000 0 True) dbChessSameCode ''a@x.com'' ''100000'') =
     Authenticated ''Email verified successfully'' (jwtSign 1) (viewOf (chessClub 1 1000 False)) \<and>
   fst (verifyOtp sampleLib (sampleEnv 3000 0 True)
          (snd (verifyOtp sampleLib (sampleEnv 2000 0 True) dbChessSameCode ''a@x.com'' ''100000''))
          ''a@x.com'' ''100000'') =
     Authenticated ''Email verified successfully'' (jwtSign 1) (viewOf (chessClub 1 1000 True)) \<and>
   fst (verifyOtp sampleLib (sampleEnv 3000 0 True)
          (snd (verifyOtp sampleLib (sampleEnv 2000 0 True) dbChessSameCode ''a@x.com'' ''100000''))
          ''a@x.com'' ''100000'') \<noteq> InvalidOrExpired"
  by (simp add: dbChessSameCode_value verify_defs sample_simps)

subsection \<open>C5: signing up again while unverified\<close>

text \<open>
  The signup passes validation, the account that the lookup by email or name finds is
  unverified, no other account holds the email or the name, ids are below \<open>nextId\<close>, and
  the mail is delivered. Then the response is 201 with the email, the old id no longer
  resolves, and the clubs are the former ones without the old account, followed by a new
  unverified account whose password is the hash of the submitted one under the salt
  drawn in this request.
\<close>

lemma signup_replaces_unverified:
  assumes valid: "signupErrors L (trim name0) (trim description0) email password = []"
    and nonempty: "castEmail email \<noteq> []"
    and found: "findByEmailOrName email (trim name0) s = Some old"
    and unverified: "\<not> c_verified old"
    and only: "\<forall>c\<in>set (clubs s). c_id c \<noteq> c_id old \<longrightarrow>
                 c_email c \<noteq> castEmail email \<and> c_name c \<noteq> castName (trim name0)"
    and ids: "\<forall>c\<in>set (clubs s). c_id c < nextId s"
    and mail: "sendMailOk e"
  shows "fst (signup L e s name0 description0 email password) = OtpSent email \<and>
         status (fst (signup L e s name0 description0 email password)) = 201 \<and>
         findById (c_id old) (snd (signup L e s name0 description0 email password)) = None \<and>
         clubs (snd (signup L e s name0 description0 email password)) =
           filter (\<lambda>c. c_id c \<noteq> c_id old) (clubs s) @
           [\<lparr>c_id = nextId s, c_name = trim name0, c_description = trim description0,
             c_email = castEmail email, c_password = bcryptHash L password (genSalt e),
             c_verified = False, c_members = [], c_events = [], c_createdAt = dateNow e\<rparr>]"
proof -
  let ?s' = "findByIdAndDelete (c_id old) s"
  let ?new = "hashed L e (newClub e (nextId s) (trim name0) (trim description0) email password)"
  from valid have v: "trim name0 \<noteq> []" "trim description0 \<noteq> []" "6 \<le> length password"
    by (simp_all add: signupErrors_Nil_iff)
  have cn: "castName (trim name0) = trim name0" by (simp add: castName_def trim_idem)
  have free: "\<forall>d\<in>set (clubs ?s'). c_name d \<noteq> castName (trim name0) \<and> c_email d \<noteq> castEmail email"
    using only by (auto simp: findByIdAndDelete_def)
  have create: "signupCreate L e ?s' (trim name0) (trim description0) email password =
     (OtpSent email,
      otpCreate e email (generateOTP (mathRandom e))
        (?s'\<lparr>nextId := Suc (nextId ?s'), clubs := clubs ?s' @
           [hashed L e (newClub e (nextId ?s') (trim name0) (trim description0) email password)]\<rparr>))"
    using v nonempty free mail cn by (subst signupCreate_ok) simp_all
  have sg: "signup L e s name0 description0 email password =
            signupCreate L e ?s' (trim name0) (trim description0) email password"
    using valid found unverified by (simp add: signup_def Let_def)
  from found have "old \<in> set (clubs s)"
    by (auto simp: findByEmailOrName_def find_Some_iff)
  with ids have "c_id old \<noteq> nextId s" by auto
  then have gone: "find (\<lambda>c. c_id c = c_id old) (filter (\<lambda>c. c_id c \<noteq> c_id old) (clubs s) @ [?new]) = None"
    by (auto simp: find_None_iff hashed_def newClub_def)
  have newv: "?new = \<lparr>c_id = nextId s, c_name = trim name0, c_description = trim description0,
             c_email = castEmail email, c_password = bcryptHash L password (genSalt e),
             c_verified = False, c_members = [], c_events = [], c_createdAt = dateNow e\<rparr>"
    by (simp add: hashed_def newClub_def cn)
  have cl: "clubs (snd (signup L e s name0 description0 email password)) =
        filter (\<lambda>c. c_id c \<noteq> c_id old) (clubs s) @ [?new]"
    unfolding sg create by (simp add: otpCreate_def findByIdAndDelete_def)
  have rs: "fst (signup L e s name0 description0 email password) = OtpSent email"
    unfolding sg create by simp
  show ?thesis
    using gone cl newv rs by (simp add: findById_def)
qed

text \<open>
  The signup of \<open>dbChess\<close> repeated: account 0 is replaced by account 1.
\<close>

lemma signup_replaces_unverified_example:
  "signupErrors sampleLib (trim ''Chess Club'') (trim ''We play chess'') ''a@x.com'' ''secret1'' = [] \<and>
   castEmail ''a@x.com'' \<noteq> [] \<and>
   findByEmailOrName ''a@x.com'' (trim ''Chess Club'') dbChess = Some (chessClub 0 0 False) \<and>
   \<not> c_verified (chessClub 0 0 False) \<and>
   sendMailOk (sampleEnv 1000 (1 / 2) True) \<and>
   fst (signup sampleLib (sampleEnv 1000 (1 / 2) True) dbChess ''Chess Club'' ''We play chess''
     ''a@x.com'' ''secret1'') = OtpSent ''a@x.com'' \<and>
   findById 0 (snd (signup sampleLib (sampleEnv 1000 (1 / 2) True) dbChess ''Chess Club''
     ''We play chess'' ''a@x.com'' ''secret1'')) = None \<and>
   clubs (snd (signup sampleLib (sampleEnv 1000 (1 / 2) True) dbChess ''Chess Club''
     ''We play chess'' ''a@x.com'' ''secret1'')) = [chessClub 1 1000 False]"
  using signup_replaces_unverified [of sampleLib "''Chess Club''" "''We play chess''"
      "''a@x.com''" "''secret1''" dbChess "chessClub 0 0 False" "sampleEnv 1000 (1 / 2) True"]
  by (simp add: dbChess_value signupErrors_def query_defs sample_simps)

text \<open>
  When the email belongs to a verified account, the guard against duplicates of verified
  accounts answers first: in
  \<open>dbGoChess\<close> a signup with the name of the unverified account 1 and the email of the
  verified account 0 is answered 400 and changes nothing.
\<close>

lemma signup_verified_email_refused:
  "chessClub 1 2000 False \<in> set (clubs dbGoChess) \<and> \<not> c_verified (chessClub 1 2000 False) \<and>
   c_name (chessClub 1 2000 False) = ''Chess Club'' \<and>
   signup sampleLib (sampleEnv 3000 0 True) dbGoChess ''Chess Club'' ''We play chess''
     ''b@x.com'' ''secret1'' = (DuplicateActive, dbGoChess) \<and>
   status DuplicateActive \<noteq> 201"
  by (simp add: dbGoChess_value signup_defs sample_simps)

text \<open>
  Claim C5 asks that, while an unverified account holds the email or the name, a second
  signup with that email or name succeeds with 201, the old account being deleted and a
  new unverified one taking its place. The code does so when one account matches
  (\<open>signup_replaces_unverified\<close>). The lookup returns one account only. In
  \<open>dbTwoUnverified\<close> no account is verified: account 0 holds the email \<open>a@x.com\<close> and
  account 1 the name \<open>Go Club\<close>. A signup with this email and this name finds account 0
  and deletes it, and the insert then fails on the unique index of \<open>name\<close>: the response
  is 500, account 0 is gone and no account holds the email.
\<close>

theorem signup_two_unverified_matches:
  "chessClub 0 0 False \<in> set (clubs dbTwoUnverified) \<and> \<not> c_verified (chessClub 0 0 False) \<and>
   c_email (chessClub 0 0 False) = ''a@x.com'' \<and>
   goClub 1 1000 False \<in> set (clubs dbTwoUnverified) \<and> \<not> c_verified (goClub 1 1000 False) \<and>
   c_name (goClub 1 1000 False) = ''Go Club'' \<and>
   signup sampleLib (sampleEnv 2000 0 True) dbTwoUnverified ''Go Club'' ''We play go'' ''a@x.com''
     ''secret3'' =
     (ServerError ''Error during signup'' DuplicateKey,
      \<lparr>clubs = [goClub 1 1000 False],
       otps = [otpFor ''a@x.com'' ''100000'' 0, otpFor ''b@x.com'' ''550000'' 1000],
       nextId = 3\<rparr>) \<and>
   status (fst (signup sampleLib (sampleEnv 2000 0 True) dbTwoUnverified ''Go Club''
     ''We play go'' ''a@x.com'' ''secret3'')) = 500 \<and>
   findByEmail ''a@x.com'' (snd (signup sampleLib (sampleEnv 2000 0 True) dbTwoUnverified
     ''Go Club'' ''We play go'' ''a@x.com'' ''secret3'')) = None"
  by (simp add: dbTwoUnverified_value signup_defs query_defs sample_simps)

subsection \<open>C6: signup against a verified account\<close>

text \<open>
  Claim C6 asks that a signup using the email or the name of a verified account fails
  with 400 \<open>DuplicateActive\<close> and neither creates nor deletes an account. That is what
  happens when the account the lookup returns is verified (\<open>signup_verified_match\<close>).
  The lookup returns one account only. In \<open>dbChessGo\<close> the unverified account 0 holds the
  email \<open>a@x.com\<close> and the verified account 1 holds the name \<open>Go Club\<close>; a signup with
  this email and this name finds account 0, deletes it, and the insert then fails on the
  unique index of \<open>name\<close>: the response is 500 and account 0 is gone.
\<close>

theorem signup_deletes_despite_verified_name:
  "goClub 1 1000 True \<in> set (clubs dbChessGo) \<and> c_verified (goClub 1 1000 True) \<and>
   c_name (goClub 1 1000 True) = ''Go Club'' \<and>
   findById 0 dbChessGo = Some (chessClub 0 0 False) \<and>
   signup sampleLib (sampleEnv 3000 0 True) dbChessGo ''Go Club'' ''We play go'' ''a@x.com''
     ''secret3'' =
     (ServerError ''Error during signup'' DuplicateKey,
      \<lparr>clubs = [goClub 1 1000 True], otps = [otpFor ''a@x.com'' ''100000'' 0], nextId = 3\<rparr>) \<and>
   status (fst (signup sampleLib (sampleEnv 3000 0 True) dbChessGo ''Go Club'' ''We play go''
     ''a@x.com'' ''secret3'')) = 500 \<and>
   findById 0 (snd (signup sampleLib (sampleEnv 3000 0 True) dbChessGo ''Go Club'' ''We play go''
     ''a@x.com'' ''secret3'')) = None"
  by (simp add: dbChessGo_value signup_defs query_defs sample_simps)

subsection \<open>C7: login of an unverified account\<close>

text \<open>
  Claim C7. Let \<open>c\<close> be an unverified account of a database whose emails are unique (as
  the unique index keeps them), and \<open>email\<close> an address that denotes it. Whatever the
  password, \<open>login\<close> does not answer 200 and issues no token; when the request passes
  validation (the address is well formed and the password is not empty) the answer is
  403 \<open>NotVerified\<close> and the database is unchanged, whether or not the password matches.
\<close>

theorem login_gating:
  assumes "c \<in> set (clubs s)" and "\<not> c_verified c" and "c_email c = castEmail email"
    and "distinct (map c_email (clubs s))"
  shows "status (fst (login L e s email password)) \<noteq> 200 \<and>
         (\<forall>msg tok view. fst (login L e s email password) \<noteq> Authenticated msg tok view) \<and>
         (isEmail L email \<and> password \<noteq> [] \<longrightarrow>
            login L e s email password = (NotVerified, s) \<and> status NotVerified = 403)"
proof -
  from assms have "find (\<lambda>y. c_email y = castEmail email) (clubs s) = Some c"
    by (intro find_unique) simp_all
  then have f: "findByEmail email s = Some c" by (simp add: findByEmail_def)
  show ?thesis
  proof (cases "loginErrors L email password = []")
    case True
    with f assms(2) have "login L e s email password = (NotVerified, s)"
      by (simp add: login_def)
    then show ?thesis by simp
  next
    case False
    then have "login L e s email password = (ValidationErrors (loginErrors L email password), s)"
      by (simp add: login_def)
    moreover from False have "\<not> (isEmail L email \<and> password \<noteq> [])"
      by (simp add: loginErrors_Nil_iff)
    ultimately show ?thesis by auto
  qed
qed

text \<open>
  In \<open>dbChess\<close> the unverified account is refused with its own password (which
  \<open>comparePassword\<close> accepts) and with a wrong one.
\<close>

theorem login_gating_witness:
  "chessClub 0 0 False \<in> set (clubs dbChess) \<and> \<not> c_verified (chessClub 0 0 False) \<and>
   c_email (chessClub 0 0 False) = castEmail ''a@x.com'' \<and>
   distinct (map c_email (clubs dbChess)) \<and>
   isEmail sampleLib ''a@x.com'' \<and>
   comparePassword sampleLib (chessClub 0 0 False) ''secret1'' \<and>
   login sampleLib (sampleEnv 5000 0 True) dbChess ''a@x.com'' ''secret1'' = (NotVerified, dbChess) \<and>
   login sampleLib (sampleEnv 5000 0 True) dbChess ''a@x.com'' ''wrong-password'' =
     (NotVerified, dbChess)"
  using login_gating [of "chessClub 0 0 False" dbChess "''a@x.com''" sampleLib
      "sampleEnv 5000 0 True" "''secret1''"]
    login_gating [of "chessClub 0 0 False" dbChess "''a@x.com''" sampleLib
      "sampleEnv 5000 0 True" "''wrong-password''"]
  by (simp add: dbChess_value comparePassword_def sample_simps)

subsection \<open>C8: no rollback when the mail is not delivered\<close>

text \<open>
  Claim C8. Let the transport fail. A call of \<open>signup\<close>, \<open>resendOtp\<close> or
  \<open>forgotPassword\<close> reaches the dispatch exactly when the same call with a delivering
  transport succeeds (these are also the only calls that answer with a delivery failure,
  by \<open>signup_delivery_error\<close>, \<open>resendOtp_delivery_error\<close> and
  \<open>forgotPassword_delivery_error\<close>). Such a call answers 500 with the message of the
  delivery failure, and the database it leaves is the one the successful call leaves:
  the OTP record just issued is in the store (after \<open>resendOtp\<close> and
  \<open>forgotPassword\<close> it is the only one for the email) and, after \<open>signup\<close>, the new
  account is the last of the clubs.
\<close>

theorem dispatch_failure_keeps_mutations:
  assumes "\<not> sendMailOk e"
  shows
  "(fst (signup L (e\<lparr>sendMailOk := True\<rparr>) s name0 description0 email password) = OtpSent email \<longrightarrow>
      signup L e s name0 description0 email password =
        (ServerError ''Error during signup'' FailedToSendEmail,
         snd (signup L (e\<lparr>sendMailOk := True\<rparr>) s name0 description0 email password)) \<and>
      otpFindOne email (generateOTP (mathRandom e))
        (snd (signup L e s name0 description0 email password)) \<noteq> None \<and>
      last (clubs (snd (signup L e s name0 description0 email password))) =
        hashed L e (newClub e (nextId s) (trim name0) (trim description0) email password)) \<and>
   (fst (resendOtp L (e\<lparr>sendMailOk := True\<rparr>) s email) = Done ''New OTP sent to your email'' \<longrightarrow>
      resendOtp L e s email =
        (ServerError ''Error resending OTP'' FailedToSendEmail,
         snd (resendOtp L (e\<lparr>sendMailOk := True\<rparr>) s email)) \<and>
      filter (\<lambda>r. o_email r = email) (otps (snd (resendOtp L e s email))) =
        [\<lparr>o_email = email, o_otp = generateOTP (mathRandom e), o_createdAt = dateNow e\<rparr>]) \<and>
   (fst (forgotPassword L (e\<lparr>sendMailOk := True\<rparr>) s email) =
      Done ''Password reset OTP sent to your email'' \<longrightarrow>
      forgotPassword L e s email =
        (ServerError ''Error sending reset OTP'' FailedToSendEmail,
         snd (forgotPassword L (e\<lparr>sendMailOk := True\<rparr>) s email)) \<and>
      filter (\<lambda>r. o_email r = email) (otps (snd (forgotPassword L e s email))) =
        [\<lparr>o_email = email, o_otp = generateOTP (mathRandom e), o_createdAt = dateNow e\<rparr>]) \<and>
   status (ServerError msg FailedToSendEmail) = 500"
proof -
  from assms have e: "e\<lparr>sendMailOk := False\<rparr> = e" by simp
  have sg: "fst (signup L (e\<lparr>sendMailOk := True\<rparr>) s name0 description0 email password) = OtpSent email \<Longrightarrow>
      signup L e s name0 description0 email password =
        (ServerError ''Error during signup'' FailedToSendEmail,
         snd (signup L (e\<lparr>sendMailOk := True\<rparr>) s name0 description0 email password)) \<and>
      otpFindOne email (generateOTP (mathRandom e))
        (snd (signup L e s name0 description0 email password)) \<noteq> None \<and>
      last (clubs (snd (signup L e s name0 description0 email password))) =
        hashed L e (newClub e (nextId s) (trim name0) (trim description0) email password)"
  proof -
    assume a: "fst (signup L (e\<lparr>sendMailOk := True\<rparr>) s name0 description0 email password) = OtpSent email"
    from signup_sent [OF a, of False] e
    show ?thesis by simp
  qed
  have rs: "fst (resendOtp L (e\<lparr>sendMailOk := True\<rparr>) s email) = Done ''New OTP sent to your email'' \<Longrightarrow>
      resendOtp L e s email =
        (ServerError ''Error resending OTP'' FailedToSendEmail,
         snd (resendOtp L (e\<lparr>sendMailOk := True\<rparr>) s email)) \<and>
      filter (\<lambda>r. o_email r = email) (otps (snd (resendOtp L e s email))) =
        [\<lparr>o_email = email, o_otp = generateOTP (mathRandom e), o_createdAt = dateNow e\<rparr>]"
  proof -
    assume a: "fst (resendOtp L (e\<lparr>sendMailOk := True\<rparr>) s email) = Done ''New OTP sent to your email''"
    from resendOtp_sent [OF a, of False] e
    have "resendOtp L e s email = (ServerError ''Error resending OTP'' FailedToSendEmail,
      otpCreate e email (generateOTP (mathRandom e)) (otpDeleteMany email s))" by simp
    then show ?thesis
      unfolding resendOtp_sent [OF a, of True] by (simp add: reissue_otps)
  qed
  have fp: "fst (forgotPassword L (e\<lparr>sendMailOk := True\<rparr>) s email) =
      Done ''Password reset OTP sent to your email'' \<Longrightarrow>
      forgotPassword L e s email =
        (ServerError ''Error sending reset OTP'' FailedToSendEmail,
         snd (forgotPassword L (e\<lparr>sendMailOk := True\<rparr>) s email)) \<and>
      filter (\<lambda>r. o_email r = email) (otps (snd (forgotPassword L e s email))) =
        [\<lparr>o_email = email, o_otp = generateOTP (mathRandom e), o_createdAt = dateNow e\<rparr>]"
  proof -
    assume a: "fst (forgotPassword L (e\<lparr>sendMailOk := True\<rparr>) s email) =
      Done ''Password reset OTP sent to your email''"
    from forgotPassword_sent [OF a, of False] e
    have "forgotPassword L e s email = (ServerError ''Error sending reset OTP'' FailedToSendEmail,
      otpCreate e email (generateOTP (mathRandom e)) (otpDeleteMany email s))" by simp
    then show ?thesis
      unfolding forgotPassword_sent [OF a, of True] by (simp add: reissue_otps)
  qed
  have st: "status (ServerError msg FailedToSendEmail) = 500" by simp
  from sg rs fp st show ?thesis by blast
qed

text \<open>
  A failed dispatch on the first signup, on a resend for \<open>dbChess\<close> and on a password
  reset request for a verified club.
\<close>

theorem dispatch_failure_keeps_mutations_witness:
  "\<not> sendMailOk (sampleEnv 0 0 False) \<and>
   signup sampleLib (sampleEnv 0 0 False) emptyDb ''Chess Club'' ''We play chess'' ''a@x.com''
     ''secret1'' = (ServerError ''Error during signup'' FailedToSendEmail, dbChess) \<and>
   \<not> sendMailOk (sampleEnv 1000 (1 / 2) False) \<and>
   resendOtp sampleLib (sampleEnv 1000 (1 / 2) False) dbChess ''a@x.com'' =
     (ServerError ''Error resending OTP'' FailedToSendEmail,
      dbChess\<lparr>otps := [otpFor ''a@x.com'' ''550000'' 1000]\<rparr>) \<and>
   \<not> sendMailOk (sampleEnv 2000 0 False) \<and>
   forgotPassword sampleLib (sampleEnv 2000 0 False)
     \<lparr>clubs = [goClub 0 0 True], otps = [], nextId = 1\<rparr> ''b@x.com'' =
     (ServerError ''Error sending reset OTP'' FailedToSendEmail, dbGoForgot)"
  using dispatch_failure_keeps_mutations [of "sampleEnv 0 0 False" sampleLib emptyDb
      "''Chess Club''" "''We play chess''" "''a@x.com''" "''secret1''"]
    dispatch_failure_keeps_mutations [of "sampleEnv 1000 (1 / 2) False" sampleLib dbChess
      "''Chess Club''" "''We play chess''" "''a@x.com''" "''secret1''"]
    dispatch_failure_keeps_mutations [of "sampleEnv 2000 0 False" sampleLib
      "\<lparr>clubs = [goClub 0 0 True], otps = [], nextId = 1\<rparr>"
      "''Chess Club''" "''We play chess''" "''b@x.com''" "''secret1''"]
    signupChess_first [of True] resendChess_second [of True] forgotGo_third [of True]
    signupChess_first [of False] resendChess_second [of False] forgotGo_third [of False]
  by (simp add: dbChess_value dbGoForgot_value sampleEnv_def)

subsection \<open>C9: password round trip\<close>

text \<open>
  The hook hashes when the assignment modified the password; assigning the stored value
  itself modifies nothing, and saving the verification flag leaves every password as it
  is.
\<close>

lemma savePassword_unmodified: "savePassword L e c (c_password c) s = s"
  by (simp add: savePassword_def)

lemma saveVerified_passwords: "map c_password (clubs (saveVerified c s)) = map c_password (clubs s)"
  by (simp add: saveVerified_def map_field_update del: map_map)




subsection \<open>C10: the OTP survives a missing account\<close>

text \<open>
  Claim C10. The request passes validation (for \<open>verifyOtp\<close> this follows from the
  match, by \<open>stored_otp_passes_validation\<close>) and the submitted pair matches a stored
  record \<open>r\<close>. If no account has the email, \<open>verifyOtp\<close> answers 404 \<open>ClubNotFound\<close>; if
  no verified account has it, so does \<open>resetPassword\<close>. In both cases the database is
  returned as it was, so \<open>r\<close> is still found and no account changed, and a later call on
  a database with the same OTP records in which the account exists succeeds.
\<close>

theorem otp_survives_account_not_found:
  "(otpErrors L email otp = [] \<and> otpFindOne email otp s = Some r \<and>
    findByEmail email s = None \<longrightarrow>
      verifyOtp L e s email otp = (ClubNotFound, s) \<and>
      otpFindOne email otp (snd (verifyOtp L e s email otp)) = Some r \<and>
      (\<forall>t c. otps t = otps (snd (verifyOtp L e s email otp)) \<and> findByEmail email t = Some c \<longrightarrow>
         status (fst (verifyOtp L e' t email otp)) = 200)) \<and>
   (resetErrors L email otp newPassword = [] \<and> otpFindOne email otp s = Some r \<and>
    findByEmailVerified email True s = None \<longrightarrow>
      resetPassword L e s email otp newPassword = (ClubNotFound, s) \<and>
      otpFindOne email otp (snd (resetPassword L e s email otp newPassword)) = Some r \<and>
      (\<forall>t c. otps t = otps (snd (resetPassword L e s email otp newPassword)) \<and>
             findByEmailVerified email True t = Some c \<longrightarrow>
         status (fst (resetPassword L e' t email otp newPassword)) = 200)) \<and>
   status ClubNotFound = 404"
proof (intro conjI impI)
  assume a: "otpErrors L email otp = [] \<and> otpFindOne email otp s = Some r \<and>
    findByEmail email s = None"
  then show v: "verifyOtp L e s email otp = (ClubNotFound, s)"
    by (simp add: verifyOtp_def)
  from a v show "otpFindOne email otp (snd (verifyOtp L e s email otp)) = Some r" by simp
  show "\<forall>t c. otps t = otps (snd (verifyOtp L e s email otp)) \<and> findByEmail email t = Some c \<longrightarrow>
         status (fst (verifyOtp L e' t email otp)) = 200"
  proof (intro allI impI)
    fix t c
    assume t: "otps t = otps (snd (verifyOtp L e s email otp)) \<and> findByEmail email t = Some c"
    with v a have "otpFindOne email otp t = Some r" by (simp add: otpFindOne_def)
    with a t show "status (fst (verifyOtp L e' t email otp)) = 200"
      by (simp add: verifyOtp_found)
  qed
next
  assume a: "resetErrors L email otp newPassword = [] \<and> otpFindOne email otp s = Some r \<and>
    findByEmailVerified email True s = None"
  then show v: "resetPassword L e s email otp newPassword = (ClubNotFound, s)"
    by (simp add: resetPassword_def)
  from a v show "otpFindOne email otp (snd (resetPassword L e s email otp newPassword)) = Some r"
    by simp
  show "\<forall>t c. otps t = otps (snd (resetPassword L e s email otp newPassword)) \<and>
             findByEmailVerified email True t = Some c \<longrightarrow>
         status (fst (resetPassword L e' t email otp newPassword)) = 200"
  proof (intro allI impI)
    fix t c
    assume t: "otps t = otps (snd (resetPassword L e s email otp newPassword)) \<and>
             findByEmailVerified email True t = Some c"
    with v a have "otpFindOne email otp t = Some r" by (simp add: otpFindOne_def)
    with a t show "status (fst (resetPassword L e' t email otp newPassword)) = 200"
      by (simp add: resetPassword_found)
  qed
next
  show "status ClubNotFound = 404" by simp
qed

text \<open>
  In \<open>dbOrphan\<close> the record for \<open>a@x.com\<close> has outlived its account.
\<close>

theorem otp_survives_account_not_found_witness:
  "otpErrors sampleLib ''a@x.com'' ''100000'' = [] \<and>
   resetErrors sampleLib ''a@x.com'' ''100000'' ''secret9'' = [] \<and>
   otpFindOne ''a@x.com'' ''100000'' dbOrphan = Some (otpFor ''a@x.com'' ''100000'' 0) \<and>
   findByEmail ''a@x.com'' dbOrphan = None \<and>
   findByEmailVerified ''a@x.com'' True dbOrphan = None \<and>
   verifyOtp sampleLib (sampleEnv 2000 0 True) dbOrphan ''a@x.com'' ''100000'' =
     (ClubNotFound, dbOrphan) \<and>
   resetPassword sampleLib (sampleEnv 2000 0 True) dbOrphan ''a@x.com'' ''100000'' ''secret9'' =
     (ClubNotFound, dbOrphan)"
  using otp_survives_account_not_found [of sampleLib "''a@x.com''" "''100000''" dbOrphan
      "otpFor ''a@x.com'' ''100000'' 0" "sampleEnv 2000 0 True" "sampleEnv 3000 0 True"
      "''secret9''"]
  by (simp add: dbOrphan_value otpErrors_def resetErrors_def query_defs sample_simps)

end
